theory Spec2Isabelle
  imports Main "HOL-Library.Word" "HOL-Library.Finite_Map" "HOL-Library.AList"
begin

section \<open>Bytes and JSON values\<close>

text \<open>
  A \<open>Uint8Array\<close> is a list of bytes. A JSON value is what \<open>JSON.parse\<close> returns; an
  object is a finite map from member names to values, so that two objects with the same
  members are equal whatever the order in which the members were written. Numbers are
  integers here, fractions are left out: the numbers of the protocol are file types,
  sizes and times in milliseconds, and no operation of the protocol layer computes
  with them.
\<close>

type_synonym byte = "8 word"

datatype json =
    JNull
  | JBool bool
  | JNum int
  | JStr string
  | JArr "json list"
  | JObj "(string, json) fmap"

section \<open>The wire codec (src/wireProtocol.ts)\<close>

definition PAYLOAD_LENGTH_OFFSET :: nat where "PAYLOAD_LENGTH_OFFSET = 0"
definition JSON_LENGTH_OFFSET :: nat where "JSON_LENGTH_OFFSET = 4"
definition MESSAGE_TYPE_OFFSET :: nat where "MESSAGE_TYPE_OFFSET = 8"
definition HEADER_LENGTH :: nat where "HEADER_LENGTH = 9"

text \<open>\<open>MessageType\<close> is a constant object of numbers, not an enumeration type.\<close>

definition Command :: nat where "Command = 0"
definition Response :: nat where "Response = 1"
definition Event :: nat where "Event = 2"

record message =
  messageType :: nat
  messageJson :: json
  messageBinary :: "byte list option"

subsection \<open>The platform's typed-array operations\<close>

text \<open>
  \<open>DataView.getUint32\<close> and \<open>getUint8\<close> read big-endian and throw a \<open>RangeError\<close>
  (here \<open>None\<close>) when the read leaves the view. \<open>setUint32\<close> stores its argument
  modulo \<open>2 ^ 32\<close>, \<open>setUint8\<close> modulo \<open>2 ^ 8\<close>. \<open>Uint8Array.slice\<close> clamps both
  bounds to the array; both bounds are non-negative at every call of the codec.
\<close>

definition getUint8 :: "byte list \<Rightarrow> nat \<Rightarrow> nat option" where
  "getUint8 view off = (if off + 1 \<le> length view then Some (unat (view ! off)) else None)"

definition getUint32 :: "byte list \<Rightarrow> nat \<Rightarrow> nat option" where
  "getUint32 view off =
     (if off + 4 \<le> length view
      then Some (unat (view ! off) * 2 ^ 24 + unat (view ! (off + 1)) * 2 ^ 16
                 + unat (view ! (off + 2)) * 2 ^ 8 + unat (view ! (off + 3)))
      else None)"

definition setUint8 :: "byte list \<Rightarrow> nat \<Rightarrow> nat \<Rightarrow> byte list" where
  "setUint8 view off v = view[off := of_nat v]"

definition setUint32 :: "byte list \<Rightarrow> nat \<Rightarrow> nat \<Rightarrow> byte list" where
  "setUint32 view off v =
     view[off := of_nat (v div 2 ^ 24), off + 1 := of_nat (v div 2 ^ 16),
          off + 2 := of_nat (v div 2 ^ 8), off + 3 := of_nat v]"

definition slice_u8 :: "byte list \<Rightarrow> nat \<Rightarrow> nat \<Rightarrow> byte list" where
  "slice_u8 bytes start end = take (end - start) (drop start bytes)"

text \<open>\<open>target.set(source, offset)\<close>, for a source that fits into the target.\<close>

definition set_bytes :: "byte list \<Rightarrow> byte list \<Rightarrow> nat \<Rightarrow> byte list" where
  "set_bytes target source off = take off target @ source @ drop (off + length source) target"

subsection \<open>The schemas of the validation library, as far as the protocol uses them\<close>

text \<open>
  A field validator sees the member's value, or \<open>None\<close> where the object has no such
  member. An object schema checks every declared member; \<open>Passthrough\<close> keeps members that
  are not declared, \<open>Strict\<close> rejects an object that has one.
\<close>

type_synonym validator = "json option \<Rightarrow> bool"
type_synonym shape = "(string \<times> validator) list"

datatype unknownKeys = Passthrough | Strict

definition z_string :: validator where
  "z_string v = (case v of Some (JStr s) \<Rightarrow> True | _ \<Rightarrow> False)"

definition z_boolean :: validator where
  "z_boolean v = (case v of Some (JBool b) \<Rightarrow> True | _ \<Rightarrow> False)"

definition z_literal_bool :: "bool \<Rightarrow> validator" where
  "z_literal_bool b v = (v = Some (JBool b))"

definition z_literal :: "string \<Rightarrow> validator" where
  "z_literal s v = (v = Some (JStr s))"

definition z_enum :: "string list \<Rightarrow> validator" where
  "z_enum ss v = (case v of Some (JStr s) \<Rightarrow> s \<in> set ss | _ \<Rightarrow> False)"

definition z_string_array :: validator where
  "z_string_array v = (case v of Some (JArr xs) \<Rightarrow> list_all (\<lambda>x. z_string (Some x)) xs | _ \<Rightarrow> False)"

definition is_hex :: "char \<Rightarrow> bool" where
  "is_hex c = (c \<in> set ''0123456789abcdefABCDEF'')"

text \<open>The library's test for a UUID: five groups of 8, 4, 4, 4 and 12 hexadecimal digits.\<close>

definition is_uuid :: "string \<Rightarrow> bool" where
  "is_uuid s =
     (length s = 36
      \<and> list_all is_hex (take 8 s) \<and> s ! 8 = CHR ''-''
      \<and> list_all is_hex (take 4 (drop 9 s)) \<and> s ! 13 = CHR ''-''
      \<and> list_all is_hex (take 4 (drop 14 s)) \<and> s ! 18 = CHR ''-''
      \<and> list_all is_hex (take 4 (drop 19 s)) \<and> s ! 23 = CHR ''-''
      \<and> list_all is_hex (take 12 (drop 24 s)))"

definition z_uuid :: validator where
  "z_uuid v = (case v of Some (JStr s) \<Rightarrow> is_uuid s | _ \<Rightarrow> False)"

definition z_object :: "shape \<Rightarrow> unknownKeys \<Rightarrow> json \<Rightarrow> bool" where
  "z_object sh mode j =
     (case j of
        JObj obj \<Rightarrow>
          list_all (\<lambda>(k, check). check (fmlookup obj k)) sh
          \<and> (mode = Strict \<longrightarrow> fmdom' obj \<subseteq> fst ` set sh)
      | _ \<Rightarrow> False)"

text \<open>\<open>schema.extend({...})\<close>: a declared member is replaced, a new one is added.\<close>

definition extend_shape :: "shape \<Rightarrow> shape \<Rightarrow> shape" where
  "extend_shape sh augmentation = fold (\<lambda>(k, check). AList.update k check) augmentation sh"

subsection \<open>Message schemas\<close>

definition command_json_shape :: shape where
  "command_json_shape = [(''command'', z_string), (''commandId'', z_uuid)]"

definition response_json_shape :: shape where
  "response_json_shape = [(''commandId'', z_uuid), (''success'', z_boolean)]"

text \<open>
  What a schema returns is built anew by the library: an object is put together member by
  member (\<open>mergeObjectSync\<close>), and a member named \<open>__proto__\<close> is left out of it. An
  object schema with \<open>.passthrough()\<close> hands the members that are not declared over as
  they are; the declared members of the two message objects are strings and booleans,
  which validate to themselves.
\<close>

definition passthrough_output :: "json \<Rightarrow> json" where
  "passthrough_output j = (case j of JObj obj \<Rightarrow> JObj (fmdrop ''__proto__'' obj) | _ \<Rightarrow> j)"

text \<open>
  \<open>jsonValueSchema\<close> (src/util/jsonSchema.ts) is the union of the literals, of
  \<open>z.array(jsonValueSchema)\<close> and of \<open>z.record(jsonValueSchema)\<close>. It accepts every JSON
  value; an array is returned element by element and a record member by member, again
  without the members named \<open>__proto__\<close>.
\<close>

primrec jsonValueSchema :: "json \<Rightarrow> json" where
  "jsonValueSchema JNull = JNull"
| "jsonValueSchema (JBool b) = JBool b"
| "jsonValueSchema (JNum n) = JNum n"
| "jsonValueSchema (JStr s) = JStr s"
| "jsonValueSchema (JArr xs) = JArr (map jsonValueSchema xs)"
| "jsonValueSchema (JObj obj) = JObj (fmdrop ''__proto__'' (fmmap jsonValueSchema obj))"

definition commandMessageSchema :: "message \<Rightarrow> message option" where
  "commandMessageSchema m =
     (if messageType m = Command \<and> z_object command_json_shape Passthrough (messageJson m)
      then Some (m\<lparr>messageJson := passthrough_output (messageJson m)\<rparr>) else None)"

definition responseMessageSchema :: "message \<Rightarrow> message option" where
  "responseMessageSchema m =
     (if messageType m = Response \<and> z_object response_json_shape Passthrough (messageJson m)
      then Some (m\<lparr>messageJson := passthrough_output (messageJson m)\<rparr>) else None)"

text \<open>An event carries any JSON value.\<close>

definition eventMessageSchema :: "message \<Rightarrow> message option" where
  "eventMessageSchema m =
     (if messageType m = Event then Some (m\<lparr>messageJson := jsonValueSchema (messageJson m)\<rparr>) else None)"

text \<open>The union discriminated by \<open>messageType\<close>.\<close>

definition messageSchema :: "message \<Rightarrow> message option" where
  "messageSchema m =
     (if messageType m = Command then commandMessageSchema m
      else if messageType m = Response then responseMessageSchema m
      else if messageType m = Event then eventMessageSchema m
      else None)"

subsection \<open>Decoding and encoding a frame\<close>

text \<open>
  \<open>JSON.stringify\<close> followed by \<open>TextEncoder.encode\<close>, and \<open>TextDecoder.decode\<close> followed
  by \<open>JSON.parse\<close>, belong to the platform: the codec takes them as the parameters
  \<open>stringify\<close> and \<open>parse\<close> (\<open>None\<close> where \<open>JSON.parse\<close> throws).
\<close>

datatype decode_error = OutOfBounds | InvalidJSON | InvalidMessage

definition messageFromBytes :: "(byte list \<Rightarrow> json option) \<Rightarrow> byte list \<Rightarrow> decode_error + message" where
  "messageFromBytes parse bytes =
     (case getUint32 bytes PAYLOAD_LENGTH_OFFSET of
        None \<Rightarrow> Inl OutOfBounds
      | Some totalLength \<Rightarrow>
     (case getUint32 bytes JSON_LENGTH_OFFSET of
        None \<Rightarrow> Inl OutOfBounds
      | Some jsonLength \<Rightarrow>
     (let binaryLength = int totalLength - int jsonLength in
      case getUint8 bytes MESSAGE_TYPE_OFFSET of
        None \<Rightarrow> Inl OutOfBounds
      | Some mType \<Rightarrow>
     (case parse (slice_u8 bytes HEADER_LENGTH (HEADER_LENGTH + jsonLength)) of
        None \<Rightarrow> Inl InvalidJSON
      | Some mJson \<Rightarrow>
     (let mBinary =
            (if binaryLength \<noteq> 0
             then Some (slice_u8 bytes (HEADER_LENGTH + jsonLength)
                          (nat (int (HEADER_LENGTH + jsonLength) + binaryLength)))
             else None);
          provisionalMessage = \<lparr>messageType = mType, messageJson = mJson, messageBinary = mBinary\<rparr>
      in case messageSchema provisionalMessage of
           None \<Rightarrow> Inl InvalidMessage
         | Some m \<Rightarrow> Inr m)))))"

definition arrayBufferFromMessage :: "(json \<Rightarrow> byte list) \<Rightarrow> message \<Rightarrow> byte list" where
  "arrayBufferFromMessage stringify m =
     (let jsonBytes = stringify (messageJson m);
          jsonLength = length jsonBytes;
          binaryLength = (case messageBinary m of None \<Rightarrow> 0 | Some binary \<Rightarrow> length binary);
          buffer0 = replicate (HEADER_LENGTH + jsonLength + binaryLength) 0;
          buffer1 = setUint32 buffer0 PAYLOAD_LENGTH_OFFSET (jsonLength + binaryLength);
          buffer2 = setUint32 buffer1 JSON_LENGTH_OFFSET jsonLength;
          buffer3 = setUint8 buffer2 MESSAGE_TYPE_OFFSET (messageType m);
          buffer4 = set_bytes buffer3 jsonBytes HEADER_LENGTH
      in case messageBinary m of
           None \<Rightarrow> buffer4
         | Some binary \<Rightarrow> set_bytes buffer4 binary (HEADER_LENGTH + jsonLength))"

subsection \<open>Auxiliary definitions for the proofs about the codec\<close>

text \<open>The four bytes that \<open>setUint32\<close> writes.\<close>

definition u32_bytes :: "nat \<Rightarrow> byte list" where
  "u32_bytes v = [of_nat (v div 2 ^ 24), of_nat (v div 2 ^ 16), of_nat (v div 2 ^ 8), of_nat v]"

text \<open>
  A JSON value none of whose objects, at any depth, has a member named \<open>__proto__\<close>.
\<close>

primrec proto_free :: "json \<Rightarrow> bool" where
  "proto_free JNull = True"
| "proto_free (JBool b) = True"
| "proto_free (JNum n) = True"
| "proto_free (JStr s) = True"
| "proto_free (JArr xs) = list_all proto_free xs"
| "proto_free (JObj obj) = (fmlookup obj ''__proto__'' = None \<and> pred_fmap proto_free obj)"

text \<open>
  Sample values of the platform's JSON text functions, for the concrete frames below: the
  texts of \<open>null\<close> and of two reply objects, and their parses. They agree with
  \<open>JSON.stringify\<close> and \<open>JSON.parse\<close> on these three values and texts only; the
  general theorems take the two functions as parameters.
\<close>

definition ascii :: "string \<Rightarrow> byte list" where
  "ascii s = map (\<lambda>c. of_nat (of_char c)) s"

definition sample_commandId :: string where
  "sample_commandId = ''123e4567-e89b-42d3-a456-426614174000''"

definition other_commandId :: string where
  "other_commandId = ''9b2d5b46-3c1f-4f0a-8d57-0a1b2c3d4e5f''"

definition sample_reply :: json where
  "sample_reply = JObj (fmap_of_list [(''success'', JBool True), (''commandId'', JStr sample_commandId)])"

definition other_reply :: json where
  "other_reply = JObj (fmap_of_list [(''success'', JBool True), (''commandId'', JStr other_commandId)])"

definition sample_reply_text :: string where
  \<open>sample_reply_text = ''{"success":true,"commandId":"123e4567-e89b-42d3-a456-426614174000"}''\<close>

definition other_reply_text :: string where
  \<open>other_reply_text = ''{"success":true,"commandId":"9b2d5b46-3c1f-4f0a-8d57-0a1b2c3d4e5f"}''\<close>

definition sample_stringify :: "json \<Rightarrow> byte list" where
  "sample_stringify j =
     (if j = sample_reply then ascii sample_reply_text
      else if j = other_reply then ascii other_reply_text
      else ascii ''null'')"

definition sample_parse :: "byte list \<Rightarrow> json option" where
  "sample_parse bytes =
     (if bytes = ascii ''null'' then Some JNull
      else if bytes = ascii sample_reply_text then Some sample_reply
      else if bytes = ascii other_reply_text then Some other_reply
      else None)"

text \<open>
  An event value with a member named \<open>__proto__\<close>, its text, and the values of the
  platform's two functions on them.
\<close>

definition proto_event :: json where
  "proto_event = JObj (fmap_of_list [(''__proto__'', JNull)])"

definition proto_event_text :: string where
  \<open>proto_event_text = ''{"__proto__":null}''\<close>

definition proto_stringify :: "json \<Rightarrow> byte list" where
  "proto_stringify j = (if j = proto_event then ascii proto_event_text else ascii ''null'')"

definition proto_parse :: "byte list \<Rightarrow> json option" where
  "proto_parse bytes =
     (if bytes = ascii proto_event_text then Some proto_event
      else if bytes = ascii ''null'' then Some JNull
      else None)"

section \<open>Command schemas (src/fileSystemProtocol/commands.ts)\<close>

text \<open>
  Every command schema extends the JSON shape of \<open>commandMessageSchema\<close>, makes it
  strict, and fixes what \<open>messageBinary\<close> may be: \<open>z.never().optional()\<close> admits only an
  absent payload, \<open>z.instanceof(Uint8Array).optional()\<close> admits any.
\<close>

definition pathOnly_json_shape :: shape where
  "pathOnly_json_shape =
     extend_shape command_json_shape
       [(''command'', z_enum [''status'', ''readDirectory'', ''createDirectory'', ''readFile'', ''delete'']),
        (''path'', z_string)]"

definition pathOnlyCommandSchema :: "message \<Rightarrow> message option" where
  "pathOnlyCommandSchema m =
     (if messageType m = Command \<and> z_object pathOnly_json_shape Strict (messageJson m)
         \<and> messageBinary m = None
      then Some m else None)"

definition watch_json_shape :: shape where
  "watch_json_shape =
     extend_shape command_json_shape
       [(''command'', z_literal ''watch''), (''path'', z_string),
        (''recursive'', z_boolean), (''excludes'', z_string_array)]"

definition watchCommandSchema :: "message \<Rightarrow> message option" where
  "watchCommandSchema m =
     (if messageType m = Command \<and> z_object watch_json_shape Strict (messageJson m)
         \<and> messageBinary m = None
      then Some m else None)"

definition rename_json_shape :: shape where
  "rename_json_shape =
     extend_shape command_json_shape
       [(''command'', z_literal ''rename''), (''oldPath'', z_string),
        (''newPath'', z_string), (''overwrite'', z_boolean)]"

definition renameCommandSchema :: "message \<Rightarrow> message option" where
  "renameCommandSchema m =
     (if messageType m = Command \<and> z_object rename_json_shape Strict (messageJson m)
         \<and> messageBinary m = None
      then Some m else None)"

definition copy_json_shape :: shape where
  "copy_json_shape =
     extend_shape command_json_shape
       [(''command'', z_literal ''copy''), (''sourcePath'', z_string),
        (''destinationPath'', z_string), (''overwrite'', z_boolean)]"

definition copyCommandSchema :: "message \<Rightarrow> message option" where
  "copyCommandSchema m =
     (if messageType m = Command \<and> z_object copy_json_shape Strict (messageJson m)
         \<and> messageBinary m = None
      then Some m else None)"

definition writeFile_json_shape :: shape where
  "writeFile_json_shape =
     extend_shape command_json_shape
       [(''command'', z_literal ''writeFile''), (''path'', z_string),
        (''create'', z_boolean), (''overwrite'', z_boolean)]"

definition writeFileCommandSchema :: "message \<Rightarrow> message option" where
  "writeFileCommandSchema m =
     (if messageType m = Command \<and> z_object writeFile_json_shape Strict (messageJson m)
      then Some m else None)"

text \<open>
  \<open>schema.transform(full => ({command: full.messageJson.command, message: full}))\<close>; the
  schema has already checked that \<open>command\<close> is a string.
\<close>

definition command_of :: "message \<Rightarrow> string" where
  "command_of m =
     (case messageJson m of
        JObj obj \<Rightarrow> (case fmlookup obj ''command'' of Some (JStr c) \<Rightarrow> c | _ \<Rightarrow> [])
      | _ \<Rightarrow> [])"

definition narrowable :: "(message \<Rightarrow> message option) \<Rightarrow> message \<Rightarrow> (string \<times> message) option" where
  "narrowable schema m = map_option (\<lambda>full. (command_of full, full)) (schema m)"

text \<open>\<open>z.union\<close> returns the result of the first option that accepts the input.\<close>

fun z_union :: "('a \<Rightarrow> 'b option) list \<Rightarrow> 'a \<Rightarrow> 'b option" where
  "z_union [] x = None"
| "z_union (schema # schemas) x = (case schema x of Some y \<Rightarrow> Some y | None \<Rightarrow> z_union schemas x)"

definition allCommandsNarrowableSchema :: "message \<Rightarrow> (string \<times> message) option" where
  "allCommandsNarrowableSchema =
     z_union [narrowable pathOnlyCommandSchema, narrowable watchCommandSchema,
              narrowable writeFileCommandSchema, narrowable renameCommandSchema,
              narrowable copyCommandSchema]"

text \<open>
  The command surface in the words of the specification: the operation-specific fields
  of each operation. Used only to state the strictness property.
\<close>

definition spec_command_fields :: "string \<Rightarrow> string list" where
  "spec_command_fields operation =
     (if operation \<in> set [''status'', ''readDirectory'', ''createDirectory'', ''readFile'', ''delete'']
        then [''path'']
      else if operation = ''writeFile'' then [''path'', ''create'', ''overwrite'']
      else if operation = ''rename'' then [''oldPath'', ''newPath'', ''overwrite'']
      else if operation = ''copy'' then [''sourcePath'', ''destinationPath'', ''overwrite'']
      else if operation = ''watch'' then [''path'', ''recursive'', ''excludes'']
      else [])"

section \<open>Response schemas (src/fileSystemProtocol/responses.ts)\<close>

text \<open>
  \<open>.omit({messageBinary: true}).strict()\<close> on the message object rejects a message that
  has a binary payload.
\<close>

definition voidSuccessResponseSchema :: "message \<Rightarrow> message option" where
  "voidSuccessResponseSchema m =
     (if messageType m = Response
         \<and> z_object (extend_shape response_json_shape [(''success'', z_literal_bool True)]) Strict (messageJson m)
         \<and> messageBinary m = None
      then Some m else None)"

definition errorResponseSchema :: "validator \<Rightarrow> message \<Rightarrow> message option" where
  "errorResponseSchema errorSchema m =
     (if messageType m = Response
         \<and> z_object (extend_shape response_json_shape
                       [(''success'', z_literal_bool False), (''error'', errorSchema)])
              Strict (messageJson m)
         \<and> messageBinary m = None
      then Some m else None)"

definition fileNotFoundResponseSchema :: "message \<Rightarrow> message option" where
  "fileNotFoundResponseSchema = errorResponseSchema (z_literal ''FileNotFound'')"

definition fileExistsResponseSchema :: "message \<Rightarrow> message option" where
  "fileExistsResponseSchema = errorResponseSchema (z_literal ''FileExists'')"

definition fileIsADirectoryResponseSchema :: "message \<Rightarrow> message option" where
  "fileIsADirectoryResponseSchema = errorResponseSchema (z_literal ''FileIsADirectory'')"

definition noPermissionsResponseSchema :: "message \<Rightarrow> message option" where
  "noPermissionsResponseSchema = errorResponseSchema (z_literal ''NoPermissions'')"

definition createDirectorySuccessResponseSchema :: "message \<Rightarrow> message option" where
  "createDirectorySuccessResponseSchema = voidSuccessResponseSchema"

definition createDirectoryResponseSchema :: "message \<Rightarrow> message option" where
  "createDirectoryResponseSchema =
     z_union [createDirectorySuccessResponseSchema, fileNotFoundResponseSchema,
              fileExistsResponseSchema, noPermissionsResponseSchema]"

text \<open>
  The success response of \<open>readFile\<close> keeps the message object non-strict and gives
  \<open>messageBinary\<close> the default \<open>new Uint8Array()\<close>.
\<close>

definition readFileSuccessResponseSchema :: "message \<Rightarrow> message option" where
  "readFileSuccessResponseSchema m =
     (if messageType m = Response
         \<and> z_object (extend_shape response_json_shape [(''success'', z_literal_bool True)]) Strict (messageJson m)
      then Some (m\<lparr>messageBinary := Some (case messageBinary m of None \<Rightarrow> [] | Some binary \<Rightarrow> binary)\<rparr>)
      else None)"

definition readFileResponseSchema :: "message \<Rightarrow> message option" where
  "readFileResponseSchema = z_union [readFileSuccessResponseSchema, fileNotFoundResponseSchema]"

section \<open>The in-memory file system (util/inMemoryFileSystem.ts)\<close>

subsection \<open>Platform functions on paths\<close>

text \<open>
  \<open>String.prototype.split("/")\<close>, and \<open>path.posix.basename\<close> and
  \<open>path.posix.dirname\<close> of the run-time library. \<open>basename\<close> drops trailing slashes
  and returns what follows the last remaining slash; \<open>dirname\<close> scans from the end,
  never looking at the first character, skips trailing slashes and the last component,
  and cuts at the slash it finds.
\<close>

fun split :: "char \<Rightarrow> string \<Rightarrow> string list" where
  "split sep [] = [[]]"
| "split sep (c # cs) =
     (if c = sep then [] # split sep cs
      else (case split sep cs of
              part # parts \<Rightarrow> (c # part) # parts
            | [] \<Rightarrow> [[c]]))"

definition basename :: "string \<Rightarrow> string" where
  "basename path =
     rev (takeWhile (\<lambda>c. c \<noteq> CHR ''/'') (dropWhile (\<lambda>c. c = CHR ''/'') (rev path)))"

definition dirname :: "string \<Rightarrow> string" where
  "dirname path =
     (if path = [] then ''.''
      else
        (let hasRoot = (hd path = CHR ''/'');
             scanned = dropWhile (\<lambda>c. c \<noteq> CHR ''/'')
                         (dropWhile (\<lambda>c. c = CHR ''/'') (rev (tl path)));
             end = length scanned
         in if scanned = [] then (if hasRoot then ''/'' else ''.'')
            else if hasRoot \<and> end = 1 then ''//''
            else take end path))"

subsection \<open>Entries\<close>

definition FileType_Unknown :: nat where "FileType_Unknown = 0"
definition FileType_File :: nat where "FileType_File = 1"
definition FileType_Directory :: nat where "FileType_Directory = 2"
definition FileType_SymbolicLink :: nat where "FileType_SymbolicLink = 64"

text \<open>
  The objects of the two classes live in a heap and are referred to by reference: a
  directory's \<open>entries\<close> map holds references, and \<open>rename\<close> mutates an object that the
  maps of two directories may refer to. A \<open>Map\<close> keeps its keys in insertion order:
  \<open>get\<close> is \<open>map_of\<close>, \<open>set\<close> is \<open>AList.update\<close>, \<open>delete\<close> is \<open>AList.delete\<close>.
  The fields \<open>type\<close> and \<open>size\<close> are written \<open>type'\<close> and \<open>size'\<close>.
\<close>

type_synonym ref = nat

record FileStat =
  type' :: nat
  ctime :: int
  mtime :: int
  size' :: int
  name :: string

record InMemoryFile = FileStat +
  data :: "byte list"

record InMemoryDirectory = FileStat +
  entries :: "(string \<times> ref) list"

datatype Entry = File InMemoryFile | Directory InMemoryDirectory

text \<open>The constructors; \<open>now\<close> is the reading of \<open>Date.now()\<close>.\<close>

definition new_InMemoryFile :: "int \<Rightarrow> string \<Rightarrow> InMemoryFile" where
  "new_InMemoryFile now n =
     \<lparr>type' = FileType_File, ctime = now, mtime = now, size' = 0, name = n, data = []\<rparr>"

definition new_InMemoryDirectory :: "int \<Rightarrow> string \<Rightarrow> InMemoryDirectory" where
  "new_InMemoryDirectory now n =
     \<lparr>type' = FileType_Directory, ctime = now, mtime = now, size' = 0, name = n, entries = []\<rparr>"

subsection \<open>The state of one file system\<close>

text \<open>
  The closure returned by \<open>createInMemoryFileSystem\<close> owns the root directory and every
  object reachable from it. References below \<open>next_ref\<close> are allocated; the root is
  reference \<open>0\<close>.
\<close>

record fs_state =
  heap :: "ref \<Rightarrow> Entry"
  next_ref :: ref

definition root :: ref where "root = 0"

definition createInMemoryFileSystem :: "int \<Rightarrow> fs_state" where
  "createInMemoryFileSystem now =
     \<lparr>heap = (\<lambda>r. Directory (new_InMemoryDirectory now [])), next_ref = 1\<rparr>"

text \<open>Field access and assignment on the object behind a reference.\<close>

definition entry_name :: "Entry \<Rightarrow> string" where
  "entry_name e = (case e of File f \<Rightarrow> name f | Directory d \<Rightarrow> name d)"

definition set_entry_name :: "string \<Rightarrow> Entry \<Rightarrow> Entry" where
  "set_entry_name n e = (case e of File f \<Rightarrow> File (f\<lparr>name := n\<rparr>) | Directory d \<Rightarrow> Directory (d\<lparr>name := n\<rparr>))"

definition entries_of :: "Entry \<Rightarrow> (string \<times> ref) list" where
  "entries_of e = (case e of Directory d \<Rightarrow> entries d | File f \<Rightarrow> [])"

definition update_directory :: "(InMemoryDirectory \<Rightarrow> InMemoryDirectory) \<Rightarrow> Entry \<Rightarrow> Entry" where
  "update_directory g e = (case e of Directory d \<Rightarrow> Directory (g d) | File f \<Rightarrow> File f)"

definition update_file :: "(InMemoryFile \<Rightarrow> InMemoryFile) \<Rightarrow> Entry \<Rightarrow> Entry" where
  "update_file g e = (case e of File f \<Rightarrow> File (g f) | Directory d \<Rightarrow> Directory d)"

definition is_directory :: "Entry \<Rightarrow> bool" where
  "is_directory e = (case e of Directory d \<Rightarrow> True | File f \<Rightarrow> False)"

subsection \<open>Lookup\<close>

datatype FileSystemError =
  FileNotFound | FileExists | FileNotADirectory | FileIsADirectory | NoPermissions | Unavailable

text \<open>The loop of \<open>_lookup\<close> over the parts of the path; \<open>None\<close> where a child is missing.\<close>

fun lookup_parts :: "(ref \<Rightarrow> Entry) \<Rightarrow> ref \<Rightarrow> string list \<Rightarrow> ref option" where
  "lookup_parts h entry [] = Some entry"
| "lookup_parts h entry (part # parts) =
     (if part = [] then lookup_parts h entry parts
      else (case (case h entry of Directory d \<Rightarrow> map_of (entries d) part | File f \<Rightarrow> None) of
              None \<Rightarrow> None
            | Some child \<Rightarrow> lookup_parts h child parts))"

definition lookup_impl :: "fs_state \<Rightarrow> string \<Rightarrow> bool \<Rightarrow> FileSystemError + ref option" where
  "lookup_impl fs urlPath silent =
     (case lookup_parts (heap fs) root (split CHR ''/'' urlPath) of
        None \<Rightarrow> (if \<not> silent then Inl FileNotFound else Inr None)
      | Some entry \<Rightarrow> Inr (Some entry))"

definition lookup :: "fs_state \<Rightarrow> string \<Rightarrow> ref option" where
  "lookup fs urlPath = (case lookup_impl fs urlPath True of Inr r \<Rightarrow> r | Inl e \<Rightarrow> None)"

definition lookupDirectory :: "fs_state \<Rightarrow> string \<Rightarrow> bool \<Rightarrow> FileSystemError + ref" where
  "lookupDirectory fs urlPath silent =
     (case lookup_impl fs urlPath silent of
        Inl e \<Rightarrow> Inl e
      | Inr None \<Rightarrow> Inl FileNotADirectory
      | Inr (Some entry) \<Rightarrow>
          (case heap fs entry of
             Directory d \<Rightarrow> Inr entry
           | File f \<Rightarrow> Inl FileNotADirectory))"

definition lookupFile :: "fs_state \<Rightarrow> string \<Rightarrow> FileSystemError + ref" where
  "lookupFile fs urlPath =
     (case lookup_impl fs urlPath False of
        Inl e \<Rightarrow> Inl e
      | Inr None \<Rightarrow> Inl FileIsADirectory
      | Inr (Some entry) \<Rightarrow>
          (case heap fs entry of
             File f \<Rightarrow> Inr entry
           | Directory d \<Rightarrow> Inl FileIsADirectory))"

definition lookupParentDirectory :: "fs_state \<Rightarrow> string \<Rightarrow> FileSystemError + ref" where
  "lookupParentDirectory fs urlPath = lookupDirectory fs (dirname urlPath) False"

subsection \<open>Mutation\<close>

definition rename :: "fs_state \<Rightarrow> string \<Rightarrow> string \<Rightarrow> bool \<Rightarrow> FileSystemError + fs_state" where
  "rename fs oldPath newPath overwrite =
     (if \<not> overwrite \<and> lookup fs newPath \<noteq> None then Inl FileExists
      else
       (case lookup_impl fs oldPath False of
          Inl e \<Rightarrow> Inl e
        | Inr None \<Rightarrow> Inl FileNotFound
        | Inr (Some entry) \<Rightarrow>
       (case lookupParentDirectory fs oldPath of
          Inl e \<Rightarrow> Inl e
        | Inr oldParent \<Rightarrow>
       (case lookupParentDirectory fs newPath of
          Inl e \<Rightarrow> Inl e
        | Inr newParent \<Rightarrow>
       (let newName = basename newPath;
            h0 = heap fs;
            h1 = h0(oldParent :=
                   update_directory (\<lambda>d. d\<lparr>entries := AList.delete (entry_name (h0 entry)) (entries d)\<rparr>)
                     (h0 oldParent));
            h2 = h1(entry := set_entry_name newName (h1 entry));
            h3 = h2(newParent :=
                   update_directory (\<lambda>d. d\<lparr>entries := AList.update newName entry (entries d)\<rparr>)
                     (h2 newParent))
        in Inr (fs\<lparr>heap := h3\<rparr>))))))"

definition writeFile ::
  "fs_state \<Rightarrow> int \<Rightarrow> string \<Rightarrow> byte list \<Rightarrow> bool \<Rightarrow> bool \<Rightarrow> FileSystemError + bool \<times> fs_state" where
  "writeFile fs now urlPath content create overwrite =
     (let base = basename urlPath in
      case lookupParentDirectory fs urlPath of
        Inl e \<Rightarrow> Inl e
      | Inr parent \<Rightarrow>
     (let entry = map_of (entries_of (heap fs parent)) base in
      if (case entry of Some e \<Rightarrow> is_directory (heap fs e) | None \<Rightarrow> False) then Inl FileIsADirectory
      else if entry = None \<and> \<not> create then Inl FileNotFound
      else if entry \<noteq> None \<and> create \<and> \<not> overwrite then Inl FileExists
      else
       (let (created, e, fs1) =
              (case entry of
                 Some e \<Rightarrow> (False, e, fs)
               | None \<Rightarrow>
                  (let e = next_ref fs;
                       h1 = (heap fs)(e := File (new_InMemoryFile now base));
                       h2 = h1(parent :=
                              update_directory (\<lambda>d. d\<lparr>entries := AList.update base e (entries d)\<rparr>)
                                (h1 parent))
                   in (True, e, fs\<lparr>heap := h2, next_ref := Suc e\<rparr>)));
            h3 = (heap fs1)(e := update_file (\<lambda>f. f\<lparr>mtime := now\<rparr>) (heap fs1 e));
            h4 = h3(e := update_file (\<lambda>f. f\<lparr>size' := int (length content)\<rparr>) (h3 e));
            h5 = h4(e := update_file (\<lambda>f. f\<lparr>data := content\<rparr>) (h4 e))
        in Inr (created, fs1\<lparr>heap := h5\<rparr>))))"

definition deleteFile :: "fs_state \<Rightarrow> int \<Rightarrow> string \<Rightarrow> FileSystemError + fs_state" where
  "deleteFile fs now urlPath =
     (let dir = dirname urlPath; base = basename urlPath in
      case lookupDirectory fs dir False of
        Inl e \<Rightarrow> Inl e
      | Inr parent \<Rightarrow>
          if map_of (entries_of (heap fs parent)) base = None then Inl FileNotFound
          else
           (let h0 = heap fs;
                h1 = h0(parent := update_directory (\<lambda>d. d\<lparr>entries := AList.delete base (entries d)\<rparr>) (h0 parent));
                h2 = h1(parent := update_directory (\<lambda>d. d\<lparr>mtime := now\<rparr>) (h1 parent));
                h3 = h2(parent := update_directory (\<lambda>d. d\<lparr>size' := size' d - 1\<rparr>) (h2 parent))
            in Inr (fs\<lparr>heap := h3\<rparr>)))"

definition createDirectory :: "fs_state \<Rightarrow> int \<Rightarrow> string \<Rightarrow> FileSystemError + fs_state" where
  "createDirectory fs now urlPath =
     (let dir = dirname urlPath; base = basename urlPath in
      case lookupDirectory fs dir False of
        Inl e \<Rightarrow> Inl e
      | Inr parent \<Rightarrow>
         (let e = next_ref fs;
              h0 = (heap fs)(e := Directory (new_InMemoryDirectory now base));
              h1 = h0(parent := update_directory (\<lambda>d. d\<lparr>entries := AList.update base e (entries d)\<rparr>) (h0 parent));
              h2 = h1(parent := update_directory (\<lambda>d. d\<lparr>mtime := now\<rparr>) (h1 parent));
              h3 = h2(parent := update_directory (\<lambda>d. d\<lparr>size' := size' d + 1\<rparr>) (h2 parent))
          in Inr (fs\<lparr>heap := h3, next_ref := Suc e\<rparr>)))"

text \<open>
  The states of the file system are those that a sequence of mutations, each with the
  clock reading at its call, leads to from the state after construction. A mutation
  that throws leaves the state as it was: every operation throws before its first
  assignment.
\<close>

datatype fs_op =
    Rename string string bool
  | WriteFile string "byte list" bool bool
  | DeleteFile string
  | CreateDirectory string

definition apply_op :: "fs_state \<Rightarrow> int \<Rightarrow> fs_op \<Rightarrow> FileSystemError + fs_state" where
  "apply_op fs now operation =
     (case operation of
        Rename oldPath newPath overwrite \<Rightarrow> rename fs oldPath newPath overwrite
      | WriteFile urlPath content create overwrite \<Rightarrow>
          (case writeFile fs now urlPath content create overwrite of
             Inl e \<Rightarrow> Inl e
           | Inr (created, fs') \<Rightarrow> Inr fs')
      | DeleteFile urlPath \<Rightarrow> deleteFile fs now urlPath
      | CreateDirectory urlPath \<Rightarrow> createDirectory fs now urlPath)"

fun run :: "fs_state \<Rightarrow> (int \<times> fs_op) list \<Rightarrow> fs_state" where
  "run fs [] = fs"
| "run fs ((now, operation) # operations) =
     (case apply_op fs now operation of
        Inl e \<Rightarrow> run fs operations
      | Inr fs' \<Rightarrow> run fs' operations)"

text \<open>
  A state is well formed when the root is an allocated directory and the maps of the
  allocated directories hold allocated references only. Every state of the file system
  is well formed.
\<close>

definition wf_fs :: "fs_state \<Rightarrow> bool" where
  "wf_fs fs =
     (root < next_ref fs \<and> is_directory (heap fs root)
      \<and> (\<forall>r < next_ref fs. \<forall>c \<in> snd ` set (entries_of (heap fs r)). c < next_ref fs))"

section \<open>The server dispatcher (exampleServer.ts)\<close>

text \<open>
  What a handler can catch: a \<open>FileSystemError\<close> with its code, the validation library's
  error, or any other \<open>Error\<close> with its message.
\<close>

datatype js_error = FsError FileSystemError | ZodError | Error string

definition code :: "FileSystemError \<Rightarrow> string" where
  "code e =
     (case e of
        FileNotFound \<Rightarrow> ''FileNotFound''
      | FileExists \<Rightarrow> ''FileExists''
      | FileNotADirectory \<Rightarrow> ''FileNotADirectory''
      | FileIsADirectory \<Rightarrow> ''FileIsADirectory''
      | NoPermissions \<Rightarrow> ''NoPermissions''
      | Unavailable \<Rightarrow> ''Unavailable'')"

definition errorResponse :: "string \<Rightarrow> string \<Rightarrow> message" where
  "errorResponse c commandId =
     \<lparr>messageType = Response,
      messageJson = JObj (fmap_of_list
        [(''success'', JBool False), (''error'', JStr c), (''commandId'', JStr commandId)]),
      messageBinary = None\<rparr>"

text \<open>\<open>Inl\<close> is the error thrown again by the \<open>// default\<close> branch.\<close>

definition errorResponseFromError :: "js_error \<Rightarrow> string \<Rightarrow> js_error + message" where
  "errorResponseFromError error commandId =
     (case error of
        FsError e \<Rightarrow>
          (case e of
             FileNotFound \<Rightarrow> Inr (errorResponse (code e) commandId)
           | FileExists \<Rightarrow> Inr (errorResponse (code e) commandId)
           | FileIsADirectory \<Rightarrow> Inr (errorResponse (code e) commandId)
           | NoPermissions \<Rightarrow> Inr (errorResponse (code e) commandId)
           | _ \<Rightarrow> Inl error)
      | _ \<Rightarrow> Inl error)"

definition data_of :: "Entry \<Rightarrow> byte list" where
  "data_of e = (case e of File f \<Rightarrow> data f | Directory d \<Rightarrow> [])"

text \<open>The handler of \<open>readFile\<close>; \<open>schema.parse\<close> throws the library's error on failure.\<close>

definition readFile :: "fs_state \<Rightarrow> string \<Rightarrow> string \<Rightarrow> js_error + message" where
  "readFile fs path commandId =
     (case lookupFile fs path of
        Inr file \<Rightarrow>
          Inr \<lparr>messageType = Response,
               messageJson = JObj (fmap_of_list [(''success'', JBool True), (''commandId'', JStr commandId)]),
               messageBinary = Some (data_of (heap fs file))\<rparr>
      | Inl e \<Rightarrow>
          (case errorResponseFromError (FsError e) commandId of
             Inl error \<Rightarrow> Inl error
           | Inr response \<Rightarrow>
               (case readFileResponseSchema response of
                  None \<Rightarrow> Inl ZodError
                | Some parsed \<Rightarrow> Inr parsed)))"

section \<open>The RPC client (src/fileSystemProvider.ts)\<close>

text \<open>
  The state of one client: the map \<open>pendingCommands\<close> from command identifiers to
  deferred results, and the deferred results resolved so far, each with the response it
  was resolved with. A deferred result is identified by a number.
\<close>

record client_state =
  pendingCommands :: "(string \<times> nat) list"
  resolved :: "(nat \<times> message) list"
  next_deferred :: nat

definition commandId_of :: "message \<Rightarrow> string" where
  "commandId_of m =
     (case messageJson m of
        JObj obj \<Rightarrow> (case fmlookup obj ''commandId'' of Some (JStr c) \<Rightarrow> c | _ \<Rightarrow> [])
      | _ \<Rightarrow> [])"

text \<open>
  \<open>sendCommand\<close> registers a fresh deferred result under the identifier of the command
  it has sent.
\<close>

definition register_pending :: "client_state \<Rightarrow> string \<Rightarrow> client_state" where
  "register_pending c commandId =
     c\<lparr>pendingCommands := AList.update commandId (next_deferred c) (pendingCommands c),
       next_deferred := Suc (next_deferred c)\<rparr>"

text \<open>
  The listener for \<open>message\<close> events, on data that is an \<open>ArrayBuffer\<close>. A frame
  that does not decode is logged and ignored; \<open>Inl\<close> is an error thrown out of the
  listener. The last branch is reached by a command message only, whose type is 0.
\<close>

definition on_message :: "(byte list \<Rightarrow> json option) \<Rightarrow> client_state \<Rightarrow> byte list \<Rightarrow> js_error + client_state" where
  "on_message parse c bytes =
     (case messageFromBytes parse bytes of
        Inl e \<Rightarrow> Inr c
      | Inr msg \<Rightarrow>
          if messageType msg = Response then
            (case responseMessageSchema msg of
               None \<Rightarrow> Inl ZodError
             | Some responseMessage \<Rightarrow>
                 (let commandId = commandId_of responseMessage in
                  case map_of (pendingCommands c) commandId of
                    None \<Rightarrow> Inl (Error (''No pending command for '' @ commandId))
                  | Some pendingCommand \<Rightarrow>
                      Inr (c\<lparr>pendingCommands := AList.delete commandId (pendingCommands c),
                             resolved := resolved c @ [(pendingCommand, responseMessage)]\<rparr>)))
          else if messageType msg = Event then Inl (Error ''Not implemented'')
          else Inl (Error ''Unexpected message type: 0''))"

text \<open>The listener run on a sequence of frames; a thrown error ends the run.\<close>

fun on_messages :: "(byte list \<Rightarrow> json option) \<Rightarrow> client_state \<Rightarrow> byte list list \<Rightarrow> js_error + client_state" where
  "on_messages parse c [] = Inr c"
| "on_messages parse c (bytes # rest) =
     (case on_message parse c bytes of
        Inl e \<Rightarrow> Inl e
      | Inr c' \<Rightarrow> on_messages parse c' rest)"

text \<open>Sample values for the concrete runs below: a client with no command sent, and two responses.\<close>

definition new_client :: client_state where
  "new_client = \<lparr>pendingCommands = [], resolved = [], next_deferred = 0\<rparr>"

definition sample_response :: message where
  "sample_response = \<lparr>messageType = Response, messageJson = sample_reply, messageBinary = None\<rparr>"

definition other_response :: message where
  "other_response = \<lparr>messageType = Response, messageJson = other_reply, messageBinary = None\<rparr>"

section \<open>Properties of the wire codec\<close>

lemma replicate9: "replicate (9 + n) (0::byte) = [0,0,0,0,0,0,0,0,0] @ replicate n 0"
  by (simp add: eval_nat_numeral)

lemma header_writes:
  "setUint8 (setUint32 (setUint32 (replicate (9 + n) 0) 0 a) 4 b) 8 t
     = (u32_bytes a @ u32_bytes b @ [of_nat t]) @ replicate n 0"
  unfolding replicate9 by (simp add: setUint8_def setUint32_def u32_bytes_def)

lemma set_bytes_json:
  "length H = 9 \<Longrightarrow> set_bytes (H @ replicate (length js + n) 0) js 9 = H @ js @ replicate n 0"
  by (simp add: set_bytes_def)

lemma set_bytes_binary:
  "length H = 9 \<Longrightarrow> set_bytes (H @ js @ replicate (length b) 0) b (9 + length js) = H @ js @ b"
  by (simp add: set_bytes_def)

lemma length_header: "length (u32_bytes a @ u32_bytes b @ [c]) = 9"
  by (simp add: u32_bytes_def)

lemma encode_layout:
  "arrayBufferFromMessage stringify m =
     (u32_bytes (length (stringify (messageJson m)) + (case messageBinary m of None \<Rightarrow> 0 | Some b \<Rightarrow> length b))
     @ u32_bytes (length (stringify (messageJson m)))
     @ [of_nat (messageType m)])
     @ stringify (messageJson m)
     @ (case messageBinary m of None \<Rightarrow> [] | Some b \<Rightarrow> b)"
proof (cases "messageBinary m")
  case None
  have "arrayBufferFromMessage stringify m =
      set_bytes (setUint8 (setUint32 (setUint32 (replicate (9 + (length (stringify (messageJson m)) + 0)) 0) 0
         (length (stringify (messageJson m)) + 0)) 4 (length (stringify (messageJson m)))) 8 (messageType m))
        (stringify (messageJson m)) 9"
    by (simp add: arrayBufferFromMessage_def Let_def HEADER_LENGTH_def PAYLOAD_LENGTH_OFFSET_def
      JSON_LENGTH_OFFSET_def MESSAGE_TYPE_OFFSET_def None)
  also have "\<dots> = (u32_bytes (length (stringify (messageJson m)) + 0) @ u32_bytes (length (stringify (messageJson m)))
     @ [of_nat (messageType m)]) @ stringify (messageJson m) @ replicate 0 0"
    unfolding header_writes by (rule set_bytes_json [OF length_header])
  finally show ?thesis by (simp add: None)
next
  case (Some b)
  have "arrayBufferFromMessage stringify m =
      set_bytes (set_bytes (setUint8 (setUint32 (setUint32 (replicate (9 + (length (stringify (messageJson m)) + length b)) 0) 0
         (length (stringify (messageJson m)) + length b)) 4 (length (stringify (messageJson m)))) 8 (messageType m))
        (stringify (messageJson m)) 9) b (9 + length (stringify (messageJson m)))"
    by (simp add: arrayBufferFromMessage_def Let_def HEADER_LENGTH_def PAYLOAD_LENGTH_OFFSET_def
      JSON_LENGTH_OFFSET_def MESSAGE_TYPE_OFFSET_def Some add.assoc)
  also have "\<dots> = (u32_bytes (length (stringify (messageJson m)) + length b) @ u32_bytes (length (stringify (messageJson m)))
     @ [of_nat (messageType m)]) @ stringify (messageJson m) @ b"
    unfolding header_writes set_bytes_json [OF length_header] by (rule set_bytes_binary [OF length_header])
  finally show ?thesis by (simp add: Some)
qed

lemma unat_byte: "unat (of_nat n :: byte) = n mod 256"
  by (simp add: unat_of_nat)

lemma u32_value: "((v div 2 ^ 24) mod 256) * 2 ^ 24 + ((v div 2 ^ 16) mod 256) * 2 ^ 16
     + ((v div 2 ^ 8) mod 256) * 2 ^ 8 + v mod 256 = (v::nat) mod 2 ^ 32"
proof -
  have 1: "v mod 4294967296 = 256 * (v div 256 mod 16777216) + v mod 256"
    using mod_mult2_eq [of v 256 16777216] by simp
  have 2: "v div 256 mod 16777216 = 256 * (v div 65536 mod 65536) + v div 256 mod 256"
    using mod_mult2_eq [of "v div 256" 256 65536] div_mult2_eq [of v 256 256] by simp
  have 3: "v div 65536 mod 65536 = 256 * (v div 16777216 mod 256) + v div 65536 mod 256"
    using mod_mult2_eq [of "v div 65536" 256 256] div_mult2_eq [of v 65536 256] by simp
  have "v mod 4294967296 = (v div 16777216 mod 256) * 16777216 + (v div 65536 mod 256) * 65536
     + (v div 256 mod 256) * 256 + v mod 256"
    unfolding 1 2 3 by (simp add: algebra_simps)
  then show ?thesis by simp
qed

lemma getUint32_u32_bytes_0: "getUint32 (u32_bytes v @ rest) 0 = Some (v mod 2 ^ 32)"
  using u32_value [of v] by (simp add: getUint32_def u32_bytes_def unat_byte)

lemma getUint32_u32_bytes_4: "getUint32 (u32_bytes a @ u32_bytes v @ rest) 4 = Some (v mod 2 ^ 32)"
  using u32_value [of v] by (simp add: getUint32_def u32_bytes_def unat_byte)

lemma messageSchema_binary:
  "messageSchema m = Some m' \<Longrightarrow> messageSchema (m\<lparr>messageBinary := b\<rparr>) = Some (m'\<lparr>messageBinary := b\<rparr>)"
  by (auto simp: messageSchema_def commandMessageSchema_def responseMessageSchema_def
      eventMessageSchema_def split: if_splits)

lemma messageSchema_type:
  "messageSchema m = Some m' \<Longrightarrow>
     messageType m < 3 \<and> messageType m' = messageType m \<and> messageBinary m' = messageBinary m"
  by (auto simp: messageSchema_def commandMessageSchema_def responseMessageSchema_def
      eventMessageSchema_def Command_def Response_def Event_def split: if_splits)

lemma messageSchema_json:
  "messageSchema m = Some m' \<Longrightarrow>
     messageJson m' = (if messageType m = Event then jsonValueSchema (messageJson m)
                       else passthrough_output (messageJson m))"
  by (auto simp: messageSchema_def commandMessageSchema_def responseMessageSchema_def
      eventMessageSchema_def Command_def Response_def Event_def split: if_splits)

lemma fmdrop_fixed: "fmdrop k obj = obj \<longleftrightarrow> fmlookup obj k = None"
proof
  assume "fmdrop k obj = obj"
  then have "fmlookup obj k = fmlookup (fmdrop k obj) k"
    by simp
  then show "fmlookup obj k = None"
    by simp
next
  assume "fmlookup obj k = None"
  then show "fmdrop k obj = obj"
    by (intro fmap_ext) (simp add: fmlookup_drop)
qed

lemma passthrough_output_fixed:
  "passthrough_output j = j
     \<longleftrightarrow> (case j of JObj obj \<Rightarrow> fmlookup obj ''__proto__'' = None | _ \<Rightarrow> True)"
  by (simp add: passthrough_output_def fmdrop_fixed split: json.split)

lemma jsonValueSchema_fixed: "jsonValueSchema j = j \<longleftrightarrow> proto_free j"
proof (induction j)
  case (JArr xs)
  then show ?case
    by (simp add: list_all_iff map_idI map_eq_conv [where g = "\<lambda>x. x", simplified])
next
  case (JObj obj)
  show ?case
  proof
    assume fixed: "jsonValueSchema (JObj obj) = JObj obj"
    then have eq: "fmdrop ''__proto__'' (fmmap jsonValueSchema obj) = obj"
      by simp
    have none: "fmlookup obj ''__proto__'' = None"
      using arg_cong [OF eq, of "\<lambda>x. fmlookup x ''__proto__''"] by simp
    have "proto_free v" if "v \<in> fmran' obj" for v
    proof -
      from that obtain k where k: "fmlookup obj k = Some v"
        by (rule fmran'E)
      with none have "k \<noteq> ''__proto__''"
        by auto
      then have "fmlookup obj k = map_option jsonValueSchema (fmlookup obj k)"
        using arg_cong [OF eq, of "\<lambda>x. fmlookup x k"] by (simp add: fmlookup_drop)
      with k have "jsonValueSchema v = v"
        by simp
      with JObj.IH [OF that] show ?thesis
        by simp
    qed
    with none show "proto_free (JObj obj)"
      by (auto simp: fmpred_iff intro: fmran'I)
  next
    assume free: "proto_free (JObj obj)"
    then have none: "fmlookup obj ''__proto__'' = None"
      and all: "\<And>v. v \<in> fmran' obj \<Longrightarrow> proto_free v"
      by (auto simp: fmpred_iff elim: fmran'E)
    have "fmmap jsonValueSchema obj = obj"
      using all JObj.IH by (intro fmap.map_ident_strong) simp
    with none show "jsonValueSchema (JObj obj) = JObj obj"
      by (simp add: fmdrop_fixed)
  qed
qed simp_all

lemma getUint8_header: "getUint8 ((u32_bytes a @ u32_bytes b @ [c]) @ rest) 8 = Some (unat c)"
  by (simp add: getUint8_def u32_bytes_def)

lemma slice_json: "length H = 9 \<Longrightarrow> slice_u8 (H @ js @ rest) 9 (9 + length js) = js"
  by (simp add: slice_u8_def)

lemma slice_binary: "length H = 9 \<Longrightarrow> slice_u8 (H @ js @ b) (9 + length js) (9 + length js + length b) = b"
  by (simp add: slice_u8_def)

lemma decode_encode:
  assumes valid: "messageSchema m = Some m'"
    and codec: "parse (stringify (messageJson m)) = Some (messageJson m)"
    and small: "length (stringify (messageJson m))
                  + (case messageBinary m of None \<Rightarrow> 0 | Some binary \<Rightarrow> length binary) < 2 ^ 32"
  shows "messageFromBytes parse (arrayBufferFromMessage stringify m)
           = Inr (if messageBinary m = Some [] then m'\<lparr>messageBinary := None\<rparr> else m')
       \<and> getUint32 (arrayBufferFromMessage stringify m) PAYLOAD_LENGTH_OFFSET
           = Some (length (stringify (messageJson m))
                   + (case messageBinary m of None \<Rightarrow> 0 | Some binary \<Rightarrow> length binary))
       \<and> getUint32 (arrayBufferFromMessage stringify m) JSON_LENGTH_OFFSET
           = Some (length (stringify (messageJson m)))"
proof -
  define js where "js = stringify (messageJson m)"
  define bin where "bin = (case messageBinary m of None \<Rightarrow> [] | Some binary \<Rightarrow> binary)"
  define H where "H = u32_bytes (length js + length bin) @ u32_bytes (length js) @ [of_nat (messageType m)]"
  let ?buf = "arrayBufferFromMessage stringify m"
  have bl: "(case messageBinary m of None \<Rightarrow> 0 | Some binary \<Rightarrow> length binary) = length bin"
    by (simp add: bin_def split: option.split)
  have buf: "?buf = H @ js @ bin"
    using encode_layout [of stringify m] unfolding bl H_def js_def [symmetric] bin_def [symmetric] .
  have lenH: "length H = 9"
    unfolding H_def by (rule length_header)
  have small': "length js + length bin < 2 ^ 32"
    using small by (simp add: js_def bl)
  have total: "getUint32 ?buf 0 = Some (length js + length bin)"
    unfolding buf H_def using small' by (simp add: getUint32_u32_bytes_0)
  have jl: "getUint32 ?buf 4 = Some (length js)"
    unfolding buf H_def using small' by (simp add: getUint32_u32_bytes_4)
  have "messageType m < 3"
    using messageSchema_type [OF valid] by simp
  then have "unat (of_nat (messageType m) :: byte) = messageType m"
    by (simp add: unat_of_nat)
  moreover have "getUint8 ?buf 8 = Some (unat (of_nat (messageType m) :: byte))"
    unfolding buf H_def by (rule getUint8_header)
  ultimately have ty: "getUint8 ?buf 8 = Some (messageType m)"
    by simp
  have sjs: "slice_u8 ?buf 9 (9 + length js) = js"
    unfolding buf by (rule slice_json [OF lenH])
  have sbin: "slice_u8 ?buf (9 + length js) (9 + length js + length bin) = bin"
    unfolding buf by (rule slice_binary [OF lenH])
  have nat_eq: "nat (int (9 + length js) + (int (length js + length bin) - int (length js)))
      = 9 + length js + length bin"
    by simp
  have codec': "parse js = Some (messageJson m)"
    using codec by (simp add: js_def)
  have dec: "messageFromBytes parse ?buf =
      (case messageSchema \<lparr>messageType = messageType m, messageJson = messageJson m,
           messageBinary = (if length bin \<noteq> 0 then Some bin else None)\<rparr> of
         None \<Rightarrow> Inl InvalidMessage | Some m' \<Rightarrow> Inr m')"
    unfolding messageFromBytes_def PAYLOAD_LENGTH_OFFSET_def JSON_LENGTH_OFFSET_def
      MESSAGE_TYPE_OFFSET_def HEADER_LENGTH_def total jl ty sjs Let_def option.case codec' nat_eq sbin
    by simp
  have prov: "\<lparr>messageType = messageType m, messageJson = messageJson m,
           messageBinary = (if length bin \<noteq> 0 then Some bin else None)\<rparr>
        = m\<lparr>messageBinary := (if messageBinary m = Some [] then None else messageBinary m)\<rparr>"
    by (cases "messageBinary m") (auto simp: bin_def)
  have same: "m'\<lparr>messageBinary := messageBinary m\<rparr> = m'"
    using messageSchema_type [OF valid] by simp
  have "messageFromBytes parse ?buf
      = Inr (m'\<lparr>messageBinary := (if messageBinary m = Some [] then None else messageBinary m)\<rparr>)"
    unfolding dec prov by (simp add: messageSchema_binary [OF valid])
  then have "messageFromBytes parse ?buf
      = Inr (if messageBinary m = Some [] then m'\<lparr>messageBinary := None\<rparr> else m')"
    using same by simp
  with total jl show ?thesis
    by (simp add: PAYLOAD_LENGTH_OFFSET_def JSON_LENGTH_OFFSET_def js_def bl)
qed

lemma messageSchema_fixed:
  assumes "messageSchema m = Some m'"
  shows "m' = m \<longleftrightarrow>
           (if messageType m = Event then proto_free (messageJson m)
            else (case messageJson m of JObj obj \<Rightarrow> fmlookup obj ''__proto__'' = None | _ \<Rightarrow> True))"
proof -
  have "m' = m \<longleftrightarrow> messageJson m' = messageJson m"
    using messageSchema_type [OF assms] by (auto intro: message.equality)
  then show ?thesis
    unfolding messageSchema_json [OF assms]
    by (simp add: jsonValueSchema_fixed passthrough_output_fixed)
qed

lemma sample_null: "sample_parse (sample_stringify JNull) = Some JNull"
  by (simp add: sample_parse_def sample_stringify_def sample_reply_def other_reply_def)

lemma sample_reply_rt: "sample_parse (sample_stringify sample_reply) = Some sample_reply"
  by (simp add: sample_parse_def sample_stringify_def ascii_def sample_reply_text_def)

lemma uuid_ok: "is_uuid sample_commandId"
  by (simp add: is_uuid_def sample_commandId_def is_hex_def)

text \<open>
  Claim C1, amended. For every valid message whose JSON value survives the platform's
  \<open>stringify\<close> and \<open>parse\<close> and whose payload is shorter than \<open>2 ^ 32\<close> bytes,
  decoding the encoded frame gives the message as the message schema returns it, with the
  binary payload absent when the payload is present with length zero. What the schema
  returns has the type and the binary payload of the message; its JSON value is that of
  the message without the member named \<open>__proto__\<close> of the object of a command or a
  response, and without the members of that name at any depth of the value of an event.
  So the frame decodes to the message itself exactly when the binary payload is absent or
  non-empty and the JSON value has no such member. The two length fields of the header
  hold the payload length and the JSON length.
\<close>

theorem roundtrip:
  assumes "messageSchema m = Some m'"
    and "parse (stringify (messageJson m)) = Some (messageJson m)"
    and "length (stringify (messageJson m))
           + (case messageBinary m of None \<Rightarrow> 0 | Some binary \<Rightarrow> length binary) < 2 ^ 32"
  shows "messageFromBytes parse (arrayBufferFromMessage stringify m)
           = Inr (if messageBinary m = Some [] then m'\<lparr>messageBinary := None\<rparr> else m')
       \<and> messageType m' = messageType m \<and> messageBinary m' = messageBinary m
       \<and> messageJson m' = (if messageType m = Event then jsonValueSchema (messageJson m)
                            else passthrough_output (messageJson m))
       \<and> (m' = m \<longleftrightarrow>
            (if messageType m = Event then proto_free (messageJson m)
             else (case messageJson m of JObj obj \<Rightarrow> fmlookup obj ''__proto__'' = None | _ \<Rightarrow> True)))
       \<and> getUint32 (arrayBufferFromMessage stringify m) PAYLOAD_LENGTH_OFFSET
           = Some (length (stringify (messageJson m))
                   + (case messageBinary m of None \<Rightarrow> 0 | Some binary \<Rightarrow> length binary))
       \<and> getUint32 (arrayBufferFromMessage stringify m) JSON_LENGTH_OFFSET
           = Some (length (stringify (messageJson m)))"
proof -
  note frame = decode_encode [where m = m and m' = m' and parse = parse and stringify = stringify, OF assms]
  note fields = messageSchema_type [OF assms(1)]
  show ?thesis
  proof (intro conjI)
    show "m' = m \<longleftrightarrow>
            (if messageType m = Event then proto_free (messageJson m)
             else (case messageJson m of JObj obj \<Rightarrow> fmlookup obj ''__proto__'' = None | _ \<Rightarrow> True))"
      using assms(1) by (rule messageSchema_fixed)
    show "messageJson m' = (if messageType m = Event then jsonValueSchema (messageJson m)
                            else passthrough_output (messageJson m))"
      using assms(1) by (rule messageSchema_json)
  qed (use frame fields in simp_all)
qed

theorem roundtrip_witness:
  "messageFromBytes sample_parse
     (arrayBufferFromMessage sample_stringify
        \<lparr>messageType = Event, messageJson = JNull, messageBinary = Some [104, 105]\<rparr>)
   = Inr \<lparr>messageType = Event, messageJson = JNull, messageBinary = Some [104, 105]\<rparr>"
proof -
  let ?m = "\<lparr>messageType = Event, messageJson = JNull, messageBinary = Some [104, 105 :: byte]\<rparr>"
  have valid: "messageSchema ?m = Some ?m"
    by (simp add: messageSchema_def eventMessageSchema_def Event_def Command_def Response_def)
  have codec: "sample_parse (sample_stringify (messageJson ?m)) = Some (messageJson ?m)"
    by (simp add: sample_null)
  have small: "length (sample_stringify (messageJson ?m))
      + (case messageBinary ?m of None \<Rightarrow> 0 | Some binary \<Rightarrow> length binary) < 2 ^ 32"
    by (simp add: sample_stringify_def sample_reply_def other_reply_def ascii_def)
  show ?thesis
    using roundtrip [where m = ?m and m' = ?m and parse = sample_parse and stringify = sample_stringify,
        OF valid codec small]
    by simp
qed

text \<open>
  Claim C1 as stated fails for a zero-length binary payload: the event message with JSON
  \<open>null\<close> and an empty payload is valid, its JSON text parses back, and the decoded
  message has no binary payload.
\<close>

theorem roundtrip_counterexample:
  "messageSchema \<lparr>messageType = Event, messageJson = JNull, messageBinary = Some []\<rparr>
     = Some \<lparr>messageType = Event, messageJson = JNull, messageBinary = Some []\<rparr>
   \<and> sample_parse (sample_stringify JNull) = Some JNull
   \<and> messageFromBytes sample_parse
       (arrayBufferFromMessage sample_stringify
          \<lparr>messageType = Event, messageJson = JNull, messageBinary = Some []\<rparr>)
     = Inr \<lparr>messageType = Event, messageJson = JNull, messageBinary = None\<rparr>
   \<and> messageFromBytes sample_parse
       (arrayBufferFromMessage sample_stringify
          \<lparr>messageType = Event, messageJson = JNull, messageBinary = Some []\<rparr>)
     \<noteq> Inr \<lparr>messageType = Event, messageJson = JNull, messageBinary = Some []\<rparr>"
proof -
  have enc: "arrayBufferFromMessage sample_stringify
          \<lparr>messageType = Event, messageJson = JNull, messageBinary = Some []\<rparr>
       = [0, 0, 0, 4, 0, 0, 0, 4, 2, 110, 117, 108, 108]"
    by (simp add: encode_layout u32_bytes_def sample_stringify_def sample_reply_def other_reply_def ascii_def Event_def)
  have dec: "messageFromBytes sample_parse [0, 0, 0, 4, 0, 0, 0, 4, 2, 110, 117, 108, 108]
       = Inr \<lparr>messageType = Event, messageJson = JNull, messageBinary = None\<rparr>"
    by (simp add: messageFromBytes_def getUint32_def getUint8_def slice_u8_def sample_parse_def ascii_def
        PAYLOAD_LENGTH_OFFSET_def JSON_LENGTH_OFFSET_def MESSAGE_TYPE_OFFSET_def HEADER_LENGTH_def
        messageSchema_def eventMessageSchema_def Event_def Command_def Response_def)
  show ?thesis
    unfolding enc dec
    by (simp add: messageSchema_def eventMessageSchema_def Event_def Command_def Response_def sample_null)
qed

text \<open>
  The schema's output at work: the event whose JSON object has the one member
  \<open>__proto__\<close> is valid, its JSON text parses back, and the frame decodes to the event
  with the empty object.
\<close>

lemma roundtrip_drops_member:
  "messageSchema \<lparr>messageType = Event, messageJson = proto_event, messageBinary = None\<rparr>
     = Some \<lparr>messageType = Event, messageJson = JObj (fmap_of_list []), messageBinary = None\<rparr>
   \<and> proto_parse (proto_stringify proto_event) = Some proto_event
   \<and> messageFromBytes proto_parse
       (arrayBufferFromMessage proto_stringify
          \<lparr>messageType = Event, messageJson = proto_event, messageBinary = None\<rparr>)
     = Inr \<lparr>messageType = Event, messageJson = JObj (fmap_of_list []), messageBinary = None\<rparr>
   \<and> JObj (fmap_of_list []) \<noteq> proto_event"
proof -
  let ?m = "\<lparr>messageType = Event, messageJson = proto_event, messageBinary = None\<rparr>"
  let ?m' = "\<lparr>messageType = Event, messageJson = JObj (fmap_of_list []), messageBinary = None\<rparr>"
  have drop: "fmdrop ''__proto__'' (fmmap jsonValueSchema (fmap_of_list [(''__proto__'', JNull)]))
      = fmap_of_list []"
    by (intro fmap_ext) (simp add: fmlookup_drop fmlookup_of_list)
  have returned: "jsonValueSchema proto_event = JObj (fmap_of_list [])"
    unfolding proto_event_def by (simp only: jsonValueSchema.simps drop)
  have valid: "messageSchema ?m = Some ?m'"
    by (simp add: messageSchema_def eventMessageSchema_def Event_def Command_def Response_def returned)
  have codec: "proto_parse (proto_stringify (messageJson ?m)) = Some (messageJson ?m)"
    by (simp add: proto_parse_def proto_stringify_def)
  have small: "length (proto_stringify (messageJson ?m))
      + (case messageBinary ?m of None \<Rightarrow> 0 | Some binary \<Rightarrow> length binary) < 2 ^ 32"
    by (simp add: proto_stringify_def proto_event_text_def ascii_def)
  have differ: "JObj (fmap_of_list []) \<noteq> proto_event"
  proof
    assume "JObj (fmap_of_list []) = proto_event"
    then have "fmlookup (fmap_of_list []) ''__proto__''
        = fmlookup (fmap_of_list [(''__proto__'', JNull)]) ''__proto__''"
      by (simp add: proto_event_def)
    then show False
      by (simp add: fmlookup_of_list)
  qed
  from decode_encode [where parse = proto_parse and stringify = proto_stringify, OF valid codec small]
    valid codec differ show ?thesis
    by simp
qed

lemma getUint32_Some: "getUint32 bytes off = Some v \<Longrightarrow> off + 4 \<le> length bytes"
  by (simp add: getUint32_def split: if_splits)

lemma getUint8_Some: "getUint8 bytes off = Some v \<Longrightarrow> off + 1 \<le> length bytes"
  by (simp add: getUint8_def split: if_splits)

lemma messageFromBytes_Inr:
  assumes "messageFromBytes parse bytes = Inr m"
  obtains totalLength jsonLength mType mJson where
    "getUint32 bytes PAYLOAD_LENGTH_OFFSET = Some totalLength"
    "getUint32 bytes JSON_LENGTH_OFFSET = Some jsonLength"
    "getUint8 bytes MESSAGE_TYPE_OFFSET = Some mType"
    "parse (slice_u8 bytes HEADER_LENGTH (HEADER_LENGTH + jsonLength)) = Some mJson"
    "messageSchema \<lparr>messageType = mType, messageJson = mJson,
        messageBinary = (if totalLength \<noteq> jsonLength
           then Some (slice_u8 bytes (HEADER_LENGTH + jsonLength) (HEADER_LENGTH + totalLength))
           else None)\<rparr> = Some m"
proof -
  from assms obtain totalLength where t: "getUint32 bytes PAYLOAD_LENGTH_OFFSET = Some totalLength"
    by (auto simp: messageFromBytes_def split: option.splits)
  from assms t obtain jsonLength where j: "getUint32 bytes JSON_LENGTH_OFFSET = Some jsonLength"
    by (auto simp: messageFromBytes_def split: option.splits)
  from assms t j obtain mType where ty: "getUint8 bytes MESSAGE_TYPE_OFFSET = Some mType"
    by (auto simp: messageFromBytes_def Let_def split: option.splits)
  from assms t j ty obtain mJson where
    p: "parse (slice_u8 bytes HEADER_LENGTH (HEADER_LENGTH + jsonLength)) = Some mJson"
    by (auto simp: messageFromBytes_def Let_def split: option.splits)
  have e: "nat (int (HEADER_LENGTH + jsonLength) + (int totalLength - int jsonLength))
      = HEADER_LENGTH + totalLength"
    by simp
  have n: "(int totalLength - int jsonLength \<noteq> 0) = (totalLength \<noteq> jsonLength)"
    by auto
  from assms have "messageSchema \<lparr>messageType = mType, messageJson = mJson,
        messageBinary = (if totalLength \<noteq> jsonLength
           then Some (slice_u8 bytes (HEADER_LENGTH + jsonLength) (HEADER_LENGTH + totalLength))
           else None)\<rparr> = Some m"
    unfolding messageFromBytes_def t j ty p Let_def option.case e n
    by (cases "totalLength = jsonLength") (auto split: option.splits)
  with t j ty p show thesis
    by (rule that)
qed

lemma length_slice_u8:
  "length (slice_u8 bytes start end) = min (end - start) (length bytes - start)"
  by (simp add: slice_u8_def)

text \<open>
  Claim C2, amended. For every buffer that decodes, the binary payload is absent exactly
  when the two declared lengths are equal, and otherwise it is the part of the buffer
  between the offsets \<open>9 + jsonLength\<close> and \<open>9 + totalLength\<close> that exists: its length
  is the smaller of \<open>totalLength - jsonLength\<close> and what the buffer holds from offset
  \<open>9 + jsonLength\<close> on (both differences stop at zero), hence exactly
  \<open>totalLength - jsonLength\<close> when the buffer is at least \<open>9 + totalLength\<close> bytes
  long. A buffer shorter than the header fails to decode.
\<close>

theorem decode_length:
  "(messageFromBytes parse bytes = Inr m \<longrightarrow>
      (\<exists>totalLength jsonLength.
          getUint32 bytes PAYLOAD_LENGTH_OFFSET = Some totalLength
        \<and> getUint32 bytes JSON_LENGTH_OFFSET = Some jsonLength
        \<and> HEADER_LENGTH \<le> length bytes
        \<and> (messageBinary m = None \<longleftrightarrow> totalLength = jsonLength)
        \<and> (\<forall>binary. messageBinary m = Some binary \<longrightarrow>
              binary = slice_u8 bytes (HEADER_LENGTH + jsonLength) (HEADER_LENGTH + totalLength)
            \<and> length binary = min (totalLength - jsonLength) (length bytes - (HEADER_LENGTH + jsonLength))
            \<and> (jsonLength \<le> totalLength \<and> HEADER_LENGTH + totalLength \<le> length bytes
                 \<longrightarrow> length binary = totalLength - jsonLength))))
   \<and> (length bytes < HEADER_LENGTH \<longrightarrow> messageFromBytes parse bytes = Inl OutOfBounds)"
proof (intro conjI impI)
  assume ok: "messageFromBytes parse bytes = Inr m"
  then obtain totalLength jsonLength mType mJson where
    t: "getUint32 bytes PAYLOAD_LENGTH_OFFSET = Some totalLength" and
    j: "getUint32 bytes JSON_LENGTH_OFFSET = Some jsonLength" and
    ty: "getUint8 bytes MESSAGE_TYPE_OFFSET = Some mType" and
    s: "messageSchema \<lparr>messageType = mType, messageJson = mJson,
        messageBinary = (if totalLength \<noteq> jsonLength
           then Some (slice_u8 bytes (HEADER_LENGTH + jsonLength) (HEADER_LENGTH + totalLength))
           else None)\<rparr> = Some m"
    by (rule messageFromBytes_Inr)
  have len: "HEADER_LENGTH \<le> length bytes"
    using getUint8_Some [OF ty] by (simp add: HEADER_LENGTH_def MESSAGE_TYPE_OFFSET_def)
  have bin: "messageBinary m = (if totalLength \<noteq> jsonLength
           then Some (slice_u8 bytes (HEADER_LENGTH + jsonLength) (HEADER_LENGTH + totalLength))
           else None)"
    using messageSchema_type [OF s] by simp
  have r1: "messageBinary m = None \<longleftrightarrow> totalLength = jsonLength"
    unfolding bin by simp
  have r2: "\<forall>binary. messageBinary m = Some binary \<longrightarrow>
              binary = slice_u8 bytes (HEADER_LENGTH + jsonLength) (HEADER_LENGTH + totalLength)
            \<and> length binary = min (totalLength - jsonLength) (length bytes - (HEADER_LENGTH + jsonLength))
            \<and> (jsonLength \<le> totalLength \<and> HEADER_LENGTH + totalLength \<le> length bytes
                 \<longrightarrow> length binary = totalLength - jsonLength)"
    unfolding bin by (auto simp: length_slice_u8)
  show "\<exists>totalLength jsonLength.
          getUint32 bytes PAYLOAD_LENGTH_OFFSET = Some totalLength
        \<and> getUint32 bytes JSON_LENGTH_OFFSET = Some jsonLength
        \<and> HEADER_LENGTH \<le> length bytes
        \<and> (messageBinary m = None \<longleftrightarrow> totalLength = jsonLength)
        \<and> (\<forall>binary. messageBinary m = Some binary \<longrightarrow>
              binary = slice_u8 bytes (HEADER_LENGTH + jsonLength) (HEADER_LENGTH + totalLength)
            \<and> length binary = min (totalLength - jsonLength) (length bytes - (HEADER_LENGTH + jsonLength))
            \<and> (jsonLength \<le> totalLength \<and> HEADER_LENGTH + totalLength \<le> length bytes
                 \<longrightarrow> length binary = totalLength - jsonLength))"
    using t j len r1 r2 by (intro exI conjI)
next
  assume "length bytes < HEADER_LENGTH"
  then show "messageFromBytes parse bytes = Inl OutOfBounds"
    by (simp add: messageFromBytes_def getUint32_def getUint8_def HEADER_LENGTH_def
        PAYLOAD_LENGTH_OFFSET_def JSON_LENGTH_OFFSET_def MESSAGE_TYPE_OFFSET_def Let_def)
qed

lemma decode_sample_frame:
  "messageFromBytes sample_parse [0, 0, 0, 6, 0, 0, 0, 4, 2, 110, 117, 108, 108, 104, 105]
     = Inr \<lparr>messageType = Event, messageJson = JNull, messageBinary = Some [104, 105]\<rparr>"
  by (simp add: messageFromBytes_def getUint32_def getUint8_def slice_u8_def sample_parse_def ascii_def
        PAYLOAD_LENGTH_OFFSET_def JSON_LENGTH_OFFSET_def MESSAGE_TYPE_OFFSET_def HEADER_LENGTH_def
        messageSchema_def eventMessageSchema_def Event_def Command_def Response_def)

theorem decode_length_witness:
  "messageFromBytes sample_parse [0, 0, 0, 6, 0, 0, 0, 4, 2, 110, 117, 108, 108, 104, 105]
     = Inr \<lparr>messageType = Event, messageJson = JNull, messageBinary = Some [104, 105]\<rparr>
   \<and> length [104, 105 :: byte] = 6 - 4
   \<and> messageFromBytes sample_parse [0, 0, 0, 6] = Inl OutOfBounds"
proof -
  define bytes :: "byte list" where "bytes = [0, 0, 0, 6, 0, 0, 0, 4, 2, 110, 117, 108, 108, 104, 105]"
  define m where "m = \<lparr>messageType = Event, messageJson = JNull, messageBinary = Some [104, 105 :: byte]\<rparr>"
  have t: "getUint32 bytes PAYLOAD_LENGTH_OFFSET = Some 6"
    by (simp add: getUint32_def PAYLOAD_LENGTH_OFFSET_def bytes_def)
  have j: "getUint32 bytes JSON_LENGTH_OFFSET = Some 4"
    by (simp add: getUint32_def JSON_LENGTH_OFFSET_def bytes_def)
  have len: "length bytes = 15"
    by (simp add: bytes_def)
  have bin: "messageBinary m = Some [104, 105]"
    by (simp add: m_def)
  have d: "messageFromBytes sample_parse bytes = Inr m"
    unfolding bytes_def m_def by (rule decode_sample_frame)
  from decode_length [where parse = sample_parse and bytes = bytes and m = m] d
  obtain totalLength jsonLength where
    "getUint32 bytes PAYLOAD_LENGTH_OFFSET = Some totalLength"
    "getUint32 bytes JSON_LENGTH_OFFSET = Some jsonLength"
    "\<forall>binary. messageBinary m = Some binary \<longrightarrow>
        (jsonLength \<le> totalLength \<and> HEADER_LENGTH + totalLength \<le> length bytes
                 \<longrightarrow> length binary = totalLength - jsonLength)"
    by blast
  with t j len bin have "length [104, 105 :: byte] = 6 - 4"
    by (simp add: HEADER_LENGTH_def)
  moreover have "messageFromBytes sample_parse [0, 0, 0, 6] = Inl OutOfBounds"
    using decode_length [where bytes = "[0, 0, 0, 6]" and parse = sample_parse]
    by (simp add: HEADER_LENGTH_def)
  ultimately show ?thesis
    using decode_sample_frame by simp
qed

text \<open>
  Claim C2 as stated fails: a 13-byte frame that declares a payload of 100 bytes, 4 of
  them JSON, decodes into a message with an empty binary payload.
\<close>

theorem decode_length_counterexample:
  "getUint32 [0, 0, 0, 100, 0, 0, 0, 4, 2, 110, 117, 108, 108] PAYLOAD_LENGTH_OFFSET = Some 100
   \<and> getUint32 [0, 0, 0, 100, 0, 0, 0, 4, 2, 110, 117, 108, 108] JSON_LENGTH_OFFSET = Some 4
   \<and> length [0, 0, 0, 100, 0, 0, 0, 4, 2, 110, 117, 108, 108 :: byte] \<noteq> HEADER_LENGTH + 100
   \<and> messageFromBytes sample_parse [0, 0, 0, 100, 0, 0, 0, 4, 2, 110, 117, 108, 108]
       = Inr \<lparr>messageType = Event, messageJson = JNull, messageBinary = Some []\<rparr>
   \<and> length ([] :: byte list) \<noteq> 100 - 4"
  by (simp add: messageFromBytes_def getUint32_def getUint8_def slice_u8_def sample_parse_def ascii_def
        PAYLOAD_LENGTH_OFFSET_def JSON_LENGTH_OFFSET_def MESSAGE_TYPE_OFFSET_def HEADER_LENGTH_def
        messageSchema_def eventMessageSchema_def Event_def Command_def Response_def)

section \<open>Strictness of the command schemas\<close>

lemma pathOnly_keys: "fst ` set pathOnly_json_shape = {''command'', ''commandId'', ''path''}"
  by (auto simp: pathOnly_json_shape_def extend_shape_def command_json_shape_def)

lemma watch_keys: "fst ` set watch_json_shape = {''command'', ''commandId'', ''path'', ''recursive'', ''excludes''}"
  by (auto simp: watch_json_shape_def extend_shape_def command_json_shape_def)

lemma rename_keys: "fst ` set rename_json_shape = {''command'', ''commandId'', ''oldPath'', ''newPath'', ''overwrite''}"
  by (auto simp: rename_json_shape_def extend_shape_def command_json_shape_def)

lemma copy_keys: "fst ` set copy_json_shape = {''command'', ''commandId'', ''sourcePath'', ''destinationPath'', ''overwrite''}"
  by (auto simp: copy_json_shape_def extend_shape_def command_json_shape_def)

lemma writeFile_keys: "fst ` set writeFile_json_shape = {''command'', ''commandId'', ''path'', ''create'', ''overwrite''}"
  by (auto simp: writeFile_json_shape_def extend_shape_def command_json_shape_def)

lemma pathOnly_accepts:
  assumes "pathOnlyCommandSchema m = Some m'"
  shows "\<exists>obj. messageJson m = JObj obj
           \<and> command_of m \<in> set [''status'', ''readDirectory'', ''createDirectory'', ''readFile'', ''delete'']
           \<and> fmdom' obj \<subseteq> {''command'', ''commandId'', ''path''}"
proof -
  from assms have z: "z_object pathOnly_json_shape Strict (messageJson m)"
    by (simp add: pathOnlyCommandSchema_def split: if_splits)
  then obtain obj where o: "messageJson m = JObj obj"
    by (auto simp: z_object_def split: json.splits)
  from z o have k: "fmdom' obj \<subseteq> fst ` set pathOnly_json_shape"
    by (simp add: z_object_def)
  from z o have "z_enum [''status'', ''readDirectory'', ''createDirectory'', ''readFile'', ''delete'']
      (fmlookup obj ''command'')"
    by (simp add: z_object_def pathOnly_json_shape_def extend_shape_def command_json_shape_def)
  then have "command_of m \<in> set [''status'', ''readDirectory'', ''createDirectory'', ''readFile'', ''delete'']"
    using o by (auto simp: z_enum_def command_of_def split: option.splits json.splits)
  with o k show ?thesis
    unfolding pathOnly_keys by blast
qed

lemma literal_command:
  "z_literal c (fmlookup obj ''command'') \<Longrightarrow> messageJson m = JObj obj \<Longrightarrow> command_of m = c"
  by (simp add: z_literal_def command_of_def)

lemma watch_accepts:
  assumes "watchCommandSchema m = Some m'"
  shows "\<exists>obj. messageJson m = JObj obj \<and> command_of m = ''watch''
           \<and> fmdom' obj \<subseteq> {''command'', ''commandId'', ''path'', ''recursive'', ''excludes''}"
proof -
  from assms have z: "z_object watch_json_shape Strict (messageJson m)"
    by (simp add: watchCommandSchema_def split: if_splits)
  then obtain obj where o: "messageJson m = JObj obj"
    by (auto simp: z_object_def split: json.splits)
  from z o have k: "fmdom' obj \<subseteq> fst ` set watch_json_shape"
    by (simp add: z_object_def)
  from z o have "z_literal ''watch'' (fmlookup obj ''command'')"
    by (simp add: z_object_def watch_json_shape_def extend_shape_def command_json_shape_def)
  then have "command_of m = ''watch''"
    using o by (rule literal_command)
  with o k show ?thesis
    unfolding watch_keys by blast
qed

lemma writeFile_accepts:
  assumes "writeFileCommandSchema m = Some m'"
  shows "\<exists>obj. messageJson m = JObj obj \<and> command_of m = ''writeFile''
           \<and> fmdom' obj \<subseteq> {''command'', ''commandId'', ''path'', ''create'', ''overwrite''}"
proof -
  from assms have z: "z_object writeFile_json_shape Strict (messageJson m)"
    by (simp add: writeFileCommandSchema_def split: if_splits)
  then obtain obj where o: "messageJson m = JObj obj"
    by (auto simp: z_object_def split: json.splits)
  from z o have k: "fmdom' obj \<subseteq> fst ` set writeFile_json_shape"
    by (simp add: z_object_def)
  from z o have "z_literal ''writeFile'' (fmlookup obj ''command'')"
    by (simp add: z_object_def writeFile_json_shape_def extend_shape_def command_json_shape_def)
  then have "command_of m = ''writeFile''"
    using o by (rule literal_command)
  with o k show ?thesis
    unfolding writeFile_keys by blast
qed

lemma rename_accepts:
  assumes "renameCommandSchema m = Some m'"
  shows "\<exists>obj. messageJson m = JObj obj \<and> command_of m = ''rename''
           \<and> fmdom' obj \<subseteq> {''command'', ''commandId'', ''oldPath'', ''newPath'', ''overwrite''}"
proof -
  from assms have z: "z_object rename_json_shape Strict (messageJson m)"
    by (simp add: renameCommandSchema_def split: if_splits)
  then obtain obj where o: "messageJson m = JObj obj"
    by (auto simp: z_object_def split: json.splits)
  from z o have k: "fmdom' obj \<subseteq> fst ` set rename_json_shape"
    by (simp add: z_object_def)
  from z o have "z_literal ''rename'' (fmlookup obj ''command'')"
    by (simp add: z_object_def rename_json_shape_def extend_shape_def command_json_shape_def)
  then have "command_of m = ''rename''"
    using o by (rule literal_command)
  with o k show ?thesis
    unfolding rename_keys by blast
qed

lemma copy_accepts:
  assumes "copyCommandSchema m = Some m'"
  shows "\<exists>obj. messageJson m = JObj obj \<and> command_of m = ''copy''
           \<and> fmdom' obj \<subseteq> {''command'', ''commandId'', ''sourcePath'', ''destinationPath'', ''overwrite''}"
proof -
  from assms have z: "z_object copy_json_shape Strict (messageJson m)"
    by (simp add: copyCommandSchema_def split: if_splits)
  then obtain obj where o: "messageJson m = JObj obj"
    by (auto simp: z_object_def split: json.splits)
  from z o have k: "fmdom' obj \<subseteq> fst ` set copy_json_shape"
    by (simp add: z_object_def)
  from z o have "z_literal ''copy'' (fmlookup obj ''command'')"
    by (simp add: z_object_def copy_json_shape_def extend_shape_def command_json_shape_def)
  then have "command_of m = ''copy''"
    using o by (rule literal_command)
  with o k show ?thesis
    unfolding copy_keys by blast
qed

lemma spec_fields_pathOnly:
  "c \<in> set [''status'', ''readDirectory'', ''createDirectory'', ''readFile'', ''delete'']
     \<Longrightarrow> spec_command_fields c = [''path'']"
  by (simp add: spec_command_fields_def)

lemma spec_fields_watch: "spec_command_fields ''watch'' = [''path'', ''recursive'', ''excludes'']"
  by (simp add: spec_command_fields_def)

lemma spec_fields_writeFile: "spec_command_fields ''writeFile'' = [''path'', ''create'', ''overwrite'']"
  by (simp add: spec_command_fields_def)

lemma spec_fields_rename: "spec_command_fields ''rename'' = [''oldPath'', ''newPath'', ''overwrite'']"
  by (simp add: spec_command_fields_def)

lemma spec_fields_copy:
  "spec_command_fields ''copy'' = [''sourcePath'', ''destinationPath'', ''overwrite'']"
  by (simp add: spec_command_fields_def)

lemma extra_field_rejected:
  assumes j: "messageJson m = JObj obj"
    and k: "k \<in> fmdom' obj"
    and extra: "k \<notin> set ([''command'', ''commandId''] @ spec_command_fields (command_of m))"
  shows "pathOnlyCommandSchema m = None" "watchCommandSchema m = None"
    "writeFileCommandSchema m = None" "renameCommandSchema m = None" "copyCommandSchema m = None"
proof -
  show "pathOnlyCommandSchema m = None"
  proof (cases "pathOnlyCommandSchema m")
    case (Some m')
    from pathOnly_accepts [OF Some] j obtain
      c: "command_of m \<in> set [''status'', ''readDirectory'', ''createDirectory'', ''readFile'', ''delete'']"
      and d: "fmdom' obj \<subseteq> {''command'', ''commandId'', ''path''}"
      by auto
    from extra have nk: "k \<notin> {''command'', ''commandId'', ''path''}"
      unfolding spec_fields_pathOnly [OF c] by simp
    from d k have "k \<in> {''command'', ''commandId'', ''path''}"
      by (rule subsetD)
    with nk show ?thesis
      by (rule notE)
  qed simp
  show "watchCommandSchema m = None"
  proof (cases "watchCommandSchema m")
    case (Some m')
    from watch_accepts [OF Some] j obtain c: "command_of m = ''watch''"
      and d: "fmdom' obj \<subseteq> {''command'', ''commandId'', ''path'', ''recursive'', ''excludes''}"
      by auto
    from extra have nk: "k \<notin> {''command'', ''commandId'', ''path'', ''recursive'', ''excludes''}"
      unfolding c spec_fields_watch by simp
    from d k have "k \<in> {''command'', ''commandId'', ''path'', ''recursive'', ''excludes''}"
      by (rule subsetD)
    with nk show ?thesis
      by (rule notE)
  qed simp
  show "writeFileCommandSchema m = None"
  proof (cases "writeFileCommandSchema m")
    case (Some m')
    from writeFile_accepts [OF Some] j obtain c: "command_of m = ''writeFile''"
      and d: "fmdom' obj \<subseteq> {''command'', ''commandId'', ''path'', ''create'', ''overwrite''}"
      by auto
    from extra have nk: "k \<notin> {''command'', ''commandId'', ''path'', ''create'', ''overwrite''}"
      unfolding c spec_fields_writeFile by simp
    from d k have "k \<in> {''command'', ''commandId'', ''path'', ''create'', ''overwrite''}"
      by (rule subsetD)
    with nk show ?thesis
      by (rule notE)
  qed simp
  show "renameCommandSchema m = None"
  proof (cases "renameCommandSchema m")
    case (Some m')
    from rename_accepts [OF Some] j obtain c: "command_of m = ''rename''"
      and d: "fmdom' obj \<subseteq> {''command'', ''commandId'', ''oldPath'', ''newPath'', ''overwrite''}"
      by auto
    from extra have nk: "k \<notin> {''command'', ''commandId'', ''oldPath'', ''newPath'', ''overwrite''}"
      unfolding c spec_fields_rename by simp
    from d k have "k \<in> {''command'', ''commandId'', ''oldPath'', ''newPath'', ''overwrite''}"
      by (rule subsetD)
    with nk show ?thesis
      by (rule notE)
  qed simp
  show "copyCommandSchema m = None"
  proof (cases "copyCommandSchema m")
    case (Some m')
    from copy_accepts [OF Some] j obtain c: "command_of m = ''copy''"
      and d: "fmdom' obj \<subseteq> {''command'', ''commandId'', ''sourcePath'', ''destinationPath'', ''overwrite''}"
      by auto
    from extra have nk: "k \<notin> {''command'', ''commandId'', ''sourcePath'', ''destinationPath'', ''overwrite''}"
      unfolding c spec_fields_copy by simp
    from d k have "k \<in> {''command'', ''commandId'', ''sourcePath'', ''destinationPath'', ''overwrite''}"
      by (rule subsetD)
    with nk show ?thesis
      by (rule notE)
  qed simp
qed

text \<open>
  Claim C7. A command message whose JSON object has a member other than \<open>command\<close>,
  \<open>commandId\<close> and the fields that the specification lists for the operation named by
  its \<open>command\<close> member is rejected by every variant of the command union, and by the
  union.
\<close>

theorem strict_command_validation:
  assumes "messageJson m = JObj obj"
    and "k \<in> fmdom' obj"
    and "k \<notin> set ([''command'', ''commandId''] @ spec_command_fields (command_of m))"
  shows "pathOnlyCommandSchema m = None \<and> watchCommandSchema m = None
       \<and> writeFileCommandSchema m = None \<and> renameCommandSchema m = None
       \<and> copyCommandSchema m = None \<and> allCommandsNarrowableSchema m = None"
  using extra_field_rejected [OF assms]
  by (simp add: allCommandsNarrowableSchema_def narrowable_def)

lemma status_command_accepted:
  "allCommandsNarrowableSchema
     \<lparr>messageType = Command,
      messageJson = JObj (fmap_of_list [(''commandId'', JStr sample_commandId),
                                        (''command'', JStr ''status''), (''path'', JStr ''/'')]),
      messageBinary = None\<rparr>
   = Some (''status'',
       \<lparr>messageType = Command,
        messageJson = JObj (fmap_of_list [(''commandId'', JStr sample_commandId),
                                          (''command'', JStr ''status''), (''path'', JStr ''/'')]),
        messageBinary = None\<rparr>)"
  by (simp add: allCommandsNarrowableSchema_def narrowable_def pathOnlyCommandSchema_def
      z_object_def pathOnly_json_shape_def extend_shape_def command_json_shape_def z_enum_def z_uuid_def
      z_string_def uuid_ok command_of_def)

theorem strict_command_validation_witness:
  "allCommandsNarrowableSchema
     \<lparr>messageType = Command,
      messageJson = JObj (fmap_of_list [(''commandId'', JStr sample_commandId),
                                        (''command'', JStr ''status''), (''path'', JStr ''/''),
                                        (''recursive'', JBool True)]),
      messageBinary = None\<rparr>
   = None"
proof -
  let ?obj = "fmap_of_list [(''commandId'', JStr sample_commandId),
                  (''command'', JStr ''status''), (''path'', JStr ''/''), (''recursive'', JBool True)]"
  let ?m = "\<lparr>messageType = Command, messageJson = JObj ?obj, messageBinary = None\<rparr>"
  have j: "messageJson ?m = JObj ?obj"
    by simp
  have k: "''recursive'' \<in> fmdom' ?obj"
    by simp
  have c: "command_of ?m = ''status''"
    by (simp add: command_of_def)
  have extra: "''recursive'' \<notin> set ([''command'', ''commandId''] @ spec_command_fields (command_of ?m))"
    unfolding c by (simp add: spec_command_fields_def)
  from strict_command_validation [OF j k extra] show ?thesis
    by (rule conjunct2 [THEN conjunct2, THEN conjunct2, THEN conjunct2, THEN conjunct2])
qed

section \<open>Properties of the in-memory file system\<close>

lemma lookup_parts_allocated:
  assumes "\<forall>r < n. \<forall>c \<in> snd ` set (entries_of (h r)). c < n"
  shows "entry < n \<Longrightarrow> lookup_parts h entry parts = Some r \<Longrightarrow> r < n"
proof (induction parts arbitrary: entry)
  case Nil
  then show ?case by simp
next
  case (Cons part parts)
  show ?case
  proof (cases "part = []")
    case True
    with Cons show ?thesis by simp
  next
    case False
    with Cons.prems obtain d child where
      d: "h entry = Directory d" and c: "map_of (entries d) part = Some child"
      and rest: "lookup_parts h child parts = Some r"
      by (auto split: Entry.splits option.splits)
    from c have "child \<in> snd ` set (entries_of (h entry))"
      by (auto simp: entries_of_def d dest: map_of_SomeD intro: rev_image_eqI)
    with assms Cons.prems(1) have "child < n"
      by blast
    then show ?thesis
      using rest by (rule Cons.IH)
  qed
qed

lemma lookupDirectory_Inr:
  assumes "lookupDirectory fs urlPath silent = Inr parent"
  shows "is_directory (heap fs parent)"
    and "lookup_parts (heap fs) root (split CHR ''/'' urlPath) = Some parent"
  using assms
  by (auto simp: lookupDirectory_def lookup_impl_def is_directory_def
      split: option.splits if_splits sum.splits Entry.splits)

lemma lookupDirectory_allocated:
  assumes "wf_fs fs" and "lookupDirectory fs urlPath silent = Inr parent"
  shows "parent < next_ref fs"
proof -
  from assms(1) have a: "\<forall>r < next_ref fs. \<forall>c \<in> snd ` set (entries_of (heap fs r)). c < next_ref fs"
    and r: "root < next_ref fs"
    by (simp_all add: wf_fs_def)
  from a r lookupDirectory_Inr(2) [OF assms(2)] show ?thesis
    by (rule lookup_parts_allocated)
qed

lemma writeFile_existing:
  assumes p: "lookupParentDirectory fs path = Inr parent"
    and t: "map_of (entries_of (heap fs parent)) (basename path) = Some target"
    and f: "heap fs target = File f"
    and go: "\<not> (create \<and> \<not> overwrite)"
  shows "writeFile fs now path content create overwrite =
     Inr (False, fs\<lparr>heap := (heap fs)(target :=
        File (f\<lparr>mtime := now, size' := int (length content), data := content\<rparr>))\<rparr>)"
  using go by (simp add: writeFile_def p t f is_directory_def update_file_def Let_def)

lemma writeFile_new:
  assumes p: "lookupParentDirectory fs path = Inr parent"
    and t: "map_of (entries_of (heap fs parent)) (basename path) = None"
    and d: "heap fs parent = Directory d"
    and ne: "parent \<noteq> next_ref fs"
  shows "writeFile fs now path content True overwrite =
     Inr (True, fs\<lparr>heap := (heap fs)
          (next_ref fs := File ((new_InMemoryFile now (basename path))
                \<lparr>mtime := now, size' := int (length content), data := content\<rparr>),
           parent := Directory (d\<lparr>entries := AList.update (basename path) (next_ref fs) (entries d)\<rparr>)),
        next_ref := Suc (next_ref fs)\<rparr>)"
  using ne
  by (simp add: writeFile_def p t [unfolded d] d update_file_def update_directory_def Let_def fun_upd_twist)

lemma writeFile_errors:
  assumes p: "lookupParentDirectory fs path = Inr parent"
  shows "map_of (entries_of (heap fs parent)) (basename path) = Some t \<Longrightarrow> is_directory (heap fs t)
           \<Longrightarrow> writeFile fs now path content create overwrite = Inl FileIsADirectory"
    and "map_of (entries_of (heap fs parent)) (basename path) = None \<Longrightarrow> \<not> create
           \<Longrightarrow> writeFile fs now path content create overwrite = Inl FileNotFound"
    and "map_of (entries_of (heap fs parent)) (basename path) = Some t \<Longrightarrow> \<not> is_directory (heap fs t)
           \<Longrightarrow> create \<Longrightarrow> \<not> overwrite
           \<Longrightarrow> writeFile fs now path content create overwrite = Inl FileExists"
  by (simp_all add: writeFile_def p Let_def)

lemma writeFile_succeeds:
  assumes wf: "wf_fs fs"
    and p: "lookupParentDirectory fs path = Inr parent"
    and t: "map_of (entries_of (heap fs parent)) (basename path) = target"
    and go: "(\<exists>t. target = Some t \<and> \<not> is_directory (heap fs t)) \<and> \<not> (create \<and> \<not> overwrite)
              \<or> target = None \<and> create"
  shows "\<exists>fs' e f. writeFile fs now path content create overwrite = Inr (target = None, fs')
          \<and> map_of (entries_of (heap fs' parent)) (basename path) = Some e
          \<and> heap fs' e = File f \<and> data f = content \<and> size' f = int (length content) \<and> mtime f = now
          \<and> (target = None \<longrightarrow> e = next_ref fs \<and> next_ref fs' = Suc (next_ref fs))
          \<and> (\<forall>t. target = Some t \<longrightarrow> e = t \<and> next_ref fs' = next_ref fs)"
proof -
  from p have pd: "is_directory (heap fs parent)"
    unfolding lookupParentDirectory_def by (rule lookupDirectory_Inr)
  then obtain d where d: "heap fs parent = Directory d"
    by (auto simp: is_directory_def split: Entry.splits)
  from go show ?thesis
  proof
    assume "(\<exists>t. target = Some t \<and> \<not> is_directory (heap fs t)) \<and> \<not> (create \<and> \<not> overwrite)"
    then obtain e where e: "target = Some e" and nd: "\<not> is_directory (heap fs e)"
      and c: "\<not> (create \<and> \<not> overwrite)"
      by blast
    from nd obtain f where f: "heap fs e = File f"
      by (auto simp: is_directory_def split: Entry.splits)
    from f d have ne: "parent \<noteq> e"
      by auto
    have w: "writeFile fs now path content create overwrite =
       Inr (False, fs\<lparr>heap := (heap fs)(e :=
        File (f\<lparr>mtime := now, size' := int (length content), data := content\<rparr>))\<rparr>)"
      using p t [unfolded e] f c by (rule writeFile_existing)
    show ?thesis
      unfolding w using ne t e by (simp add: d)
  next
    assume "target = None \<and> create"
    then have n: "target = None" and c: create
      by simp_all
    from wf p have "parent < next_ref fs"
      unfolding lookupParentDirectory_def by (rule lookupDirectory_allocated)
    then have ne: "parent \<noteq> next_ref fs"
      by simp
    have w: "writeFile fs now path content True overwrite =
     Inr (True, fs\<lparr>heap := (heap fs)
          (next_ref fs := File ((new_InMemoryFile now (basename path))
                \<lparr>mtime := now, size' := int (length content), data := content\<rparr>),
           parent := Directory (d\<lparr>entries := AList.update (basename path) (next_ref fs) (entries d)\<rparr>)),
        next_ref := Suc (next_ref fs)\<rparr>)"
      using p t [unfolded n] d ne by (rule writeFile_new)
    show ?thesis
      using c ne unfolding n by (simp add: w entries_of_def update_conv')
  qed
qed

lemma parent_of_root_file:
  "is_directory (heap fs root) \<Longrightarrow> lookupParentDirectory fs ''/a.txt'' = Inr root"
  by (auto simp: lookupParentDirectory_def lookupDirectory_def lookup_impl_def dirname_def
      is_directory_def split: Entry.splits)

lemma writeFile_scenario:
  "\<exists>fs1 fs2 e f.
     writeFile (createInMemoryFileSystem t0) t1 ''/a.txt'' content True False = Inr (True, fs1)
   \<and> writeFile fs1 t2 ''/a.txt'' content True False = Inl FileExists
   \<and> writeFile fs1 t2 ''/a.txt'' content' True True = Inr (False, fs2)
   \<and> lookupFile fs2 ''/a.txt'' = Inr e \<and> heap fs2 e = File f \<and> data f = content'"
proof -
  define fs0 where "fs0 = createInMemoryFileSystem t0"
  define f1 where "f1 = (new_InMemoryFile t1 ''a.txt'')\<lparr>mtime := t1, size' := int (length content), data := content\<rparr>"
  define d1 where "d1 = (new_InMemoryDirectory t0 [])\<lparr>entries := [(''a.txt'', 1)]\<rparr>"
  define fs1 where "fs1 = fs0\<lparr>heap := (heap fs0)(1 := File f1, root := Directory d1), next_ref := 2\<rparr>"
  define fs2 where "fs2 = fs1\<lparr>heap := (heap fs1)(1 :=
        File (f1\<lparr>mtime := t2, size' := int (length content'), data := content'\<rparr>))\<rparr>"
  have r0: "heap fs0 root = Directory (new_InMemoryDirectory t0 [])" and n0: "next_ref fs0 = 1"
    by (simp_all add: fs0_def createInMemoryFileSystem_def)
  have p0: "lookupParentDirectory fs0 ''/a.txt'' = Inr root"
    by (rule parent_of_root_file) (simp add: r0 is_directory_def)
  have b: "basename ''/a.txt'' = ''a.txt''"
    by (simp add: basename_def)
  have e0: "map_of (entries_of (heap fs0 root)) (basename ''/a.txt'') = None"
    by (simp add: r0 entries_of_def new_InMemoryDirectory_def)
  have ne0: "root \<noteq> next_ref fs0"
    by (simp add: n0 root_def)
  have w1: "writeFile fs0 t1 ''/a.txt'' content True False = Inr (True, fs1)"
    unfolding writeFile_new [OF p0 e0 r0 ne0]
    by (simp add: b n0 new_InMemoryDirectory_def fs1_def f1_def d1_def numeral_2_eq_2)
  have r1: "heap fs1 root = Directory d1" and h1: "heap fs1 1 = File f1"
    by (simp_all add: fs1_def root_def)
  have p1: "lookupParentDirectory fs1 ''/a.txt'' = Inr root"
    by (rule parent_of_root_file) (simp add: r1 is_directory_def)
  have t1: "map_of (entries_of (heap fs1 root)) (basename ''/a.txt'') = Some 1"
    by (simp add: r1 b entries_of_def d1_def)
  have nd: "\<not> is_directory (heap fs1 1)"
    using h1 by (simp add: is_directory_def)
  have w2: "writeFile fs1 t2 ''/a.txt'' content True False = Inl FileExists"
    using p1 t1 nd by (rule writeFile_errors(3)) simp_all
  have w3: "writeFile fs1 t2 ''/a.txt'' content' True True = Inr (False, fs2)"
    unfolding fs2_def using p1 t1 h1 by (rule writeFile_existing) simp
  have l: "lookupFile fs2 ''/a.txt'' = Inr 1"
    by (simp add: lookupFile_def lookup_impl_def fs2_def fs1_def root_def d1_def)
  have h2: "heap fs2 1 = File (f1\<lparr>mtime := t2, size' := int (length content'), data := content'\<rparr>)"
    by (simp add: fs2_def)
  have d2: "data (f1\<lparr>mtime := t2, size' := int (length content'), data := content'\<rparr>) = content'"
    by simp
  from w1 w2 w3 l h2 d2 show ?thesis
    unfolding fs0_def by (intro exI conjI)
qed

lemma wf_createInMemoryFileSystem: "wf_fs (createInMemoryFileSystem now)"
  by (simp add: wf_fs_def createInMemoryFileSystem_def root_def is_directory_def entries_of_def
      new_InMemoryDirectory_def)

lemma wf_fsI:
  assumes "root < next_ref fs" and "is_directory (heap fs root)"
    and "\<And>r c. r < next_ref fs \<Longrightarrow> c \<in> snd ` set (entries_of (heap fs r)) \<Longrightarrow> c < next_ref fs"
  shows "wf_fs fs"
  using assms by (simp add: wf_fs_def)

lemma wf_fsD:
  assumes "wf_fs fs"
  shows "root < next_ref fs" and "is_directory (heap fs root)"
    and "r < next_ref fs \<Longrightarrow> c \<in> snd ` set (entries_of (heap fs r)) \<Longrightarrow> c < next_ref fs"
  using assms by (auto simp: wf_fs_def)

lemma snd_set_delete: "snd ` set (AList.delete k al) \<subseteq> snd ` set al"
  by (auto simp: AList.delete_eq)

lemma snd_set_update: "snd ` set (AList.update k v al) \<subseteq> insert v (snd ` set al)"
  by (induction al) auto

lemma is_directory_update_directory [simp]: "is_directory (update_directory g e) = is_directory e"
  by (simp add: is_directory_def update_directory_def split: Entry.splits)

lemma is_directory_set_entry_name [simp]: "is_directory (set_entry_name n e) = is_directory e"
  by (simp add: is_directory_def set_entry_name_def split: Entry.splits)

lemma is_directory_update_file [simp]: "is_directory (update_file g e) = is_directory e"
  by (simp add: is_directory_def update_file_def split: Entry.splits)

lemma entries_of_set_entry_name [simp]: "entries_of (set_entry_name n e) = entries_of e"
  by (simp add: entries_of_def set_entry_name_def split: Entry.splits)

lemma entries_of_update_file [simp]: "entries_of (update_file g e) = entries_of e"
  by (simp add: entries_of_def update_file_def split: Entry.splits)

lemma entries_of_update_directory:
  "entries_of (update_directory g e) = (case e of Directory d \<Rightarrow> entries (g d) | File f \<Rightarrow> [])"
  by (simp add: entries_of_def update_directory_def split: Entry.splits)

lemma entries_of_update_delete:
  "snd ` set (entries_of (update_directory (\<lambda>d. d\<lparr>entries := AList.delete k (entries d)\<rparr>) e))
     \<subseteq> snd ` set (entries_of e)"
  by (cases e) (simp_all add: entries_of_def update_directory_def snd_set_delete)

lemma entries_of_update_update:
  "snd ` set (entries_of (update_directory (\<lambda>d. d\<lparr>entries := AList.update k v (entries d)\<rparr>) e))
     \<subseteq> insert v (snd ` set (entries_of e))"
  by (cases e) (simp_all add: entries_of_def update_directory_def snd_set_update)

lemma entries_of_update_mtime [simp]:
  "entries_of (update_directory (\<lambda>d. d\<lparr>mtime := t\<rparr>) e) = entries_of e"
  by (simp add: entries_of_def update_directory_def split: Entry.splits)

lemma entries_of_update_size [simp]:
  "entries_of (update_directory (\<lambda>d. d\<lparr>size' := g d\<rparr>) e) = entries_of e"
  by (simp add: entries_of_def update_directory_def split: Entry.splits)

lemma lookup_impl_allocated:
  assumes "wf_fs fs" and "lookup_impl fs urlPath silent = Inr (Some entry)"
  shows "entry < next_ref fs"
proof -
  from assms(1) have a: "\<forall>r < next_ref fs. \<forall>c \<in> snd ` set (entries_of (heap fs r)). c < next_ref fs"
    and r: "root < next_ref fs"
    by (simp_all add: wf_fs_def)
  from assms(2) have "lookup_parts (heap fs) root (split CHR ''/'' urlPath) = Some entry"
    by (simp add: lookup_impl_def split: option.splits if_splits)
  with a r show ?thesis
    by (rule lookup_parts_allocated)
qed

lemma wf_rename:
  assumes wf: "wf_fs fs" and ok: "rename fs oldPath newPath overwrite = Inr fs'"
  shows "wf_fs fs'"
proof -
  from ok obtain entry oldParent newParent where
    e: "lookup_impl fs oldPath False = Inr (Some entry)"
    and op: "lookupParentDirectory fs oldPath = Inr oldParent"
    and np: "lookupParentDirectory fs newPath = Inr newParent"
    by (auto simp: rename_def split: if_splits sum.splits option.splits)
  define h1 where "h1 = (heap fs)(oldParent :=
      update_directory (\<lambda>d. d\<lparr>entries := AList.delete (entry_name (heap fs entry)) (entries d)\<rparr>)
        (heap fs oldParent))"
  define h2 where "h2 = h1(entry := set_entry_name (basename newPath) (h1 entry))"
  define h3 where "h3 = h2(newParent :=
      update_directory (\<lambda>d. d\<lparr>entries := AList.update (basename newPath) entry (entries d)\<rparr>)
        (h2 newParent))"
  from ok e op np have fs': "fs' = fs\<lparr>heap := h3\<rparr>"
    by (auto simp: rename_def Let_def h1_def h2_def h3_def split: if_splits)
  have ea: "entry < next_ref fs"
    using wf e by (rule lookup_impl_allocated)
  have d1: "is_directory (h1 r) = is_directory (heap fs r)" for r
    by (simp add: h1_def)
  have d2: "is_directory (h2 r) = is_directory (h1 r)" for r
    by (simp add: h2_def)
  have d3: "is_directory (h3 r) = is_directory (h2 r)" for r
    by (simp add: h3_def)
  have s1: "snd ` set (entries_of (h1 r)) \<subseteq> snd ` set (entries_of (heap fs r))" for r
    using entries_of_update_delete [of "entry_name (heap fs entry)" "heap fs oldParent"]
    by (simp add: h1_def)
  have s2: "entries_of (h2 r) = entries_of (h1 r)" for r
    by (simp add: h2_def)
  have s3: "snd ` set (entries_of (h3 r)) \<subseteq> insert entry (snd ` set (entries_of (h2 r)))" for r
    using entries_of_update_update [of "basename newPath" entry "h2 newParent"]
    by (auto simp: h3_def)
  show ?thesis
  proof (rule wf_fsI)
    show "root < next_ref fs'"
      using wf_fsD(1) [OF wf] by (simp add: fs')
    show "is_directory (heap fs' root)"
      using wf_fsD(2) [OF wf] by (simp add: fs' d1 d2 d3)
  next
    fix r c
    assume r: "r < next_ref fs'" and c: "c \<in> snd ` set (entries_of (heap fs' r))"
    from c have "c \<in> snd ` set (entries_of (h3 r))"
      by (simp add: fs')
    with s3 [of r] have "c = entry \<or> c \<in> snd ` set (entries_of (h2 r))"
      by auto
    then have "c = entry \<or> c \<in> snd ` set (entries_of (heap fs r))"
      using s1 [of r] unfolding s2 by auto
    then show "c < next_ref fs'"
      using ea wf_fsD(3) [OF wf, of r c] r by (auto simp: fs')
  qed
qed

lemma wf_deleteFile:
  assumes wf: "wf_fs fs" and ok: "deleteFile fs now urlPath = Inr fs'"
  shows "wf_fs fs'"
proof -
  from ok obtain parent where
    p: "lookupDirectory fs (dirname urlPath) False = Inr parent"
    by (auto simp: deleteFile_def Let_def split: sum.splits)
  define h1 where "h1 = (heap fs)(parent :=
      update_directory (\<lambda>d. d\<lparr>entries := AList.delete (basename urlPath) (entries d)\<rparr>) (heap fs parent))"
  define h2 where "h2 = h1(parent := update_directory (\<lambda>d. d\<lparr>mtime := now\<rparr>) (h1 parent))"
  define h3 where "h3 = h2(parent := update_directory (\<lambda>d. d\<lparr>size' := size' d - 1\<rparr>) (h2 parent))"
  from ok p have fs': "fs' = fs\<lparr>heap := h3\<rparr>"
    by (auto simp: deleteFile_def Let_def h1_def h2_def h3_def split: if_splits)
  have d: "is_directory (h3 r) = is_directory (heap fs r)" for r
    by (simp add: h3_def h2_def h1_def)
  have s1: "snd ` set (entries_of (h1 r)) \<subseteq> snd ` set (entries_of (heap fs r))" for r
    using entries_of_update_delete [of "basename urlPath" "heap fs parent"]
    by (simp add: h1_def)
  have s3: "entries_of (h3 r) = entries_of (h1 r)" for r
    by (simp add: h3_def h2_def)
  show ?thesis
  proof (rule wf_fsI)
    show "root < next_ref fs'"
      using wf_fsD(1) [OF wf] by (simp add: fs')
    show "is_directory (heap fs' root)"
      using wf_fsD(2) [OF wf] by (simp add: fs' d)
  next
    fix r c
    assume r: "r < next_ref fs'" and c: "c \<in> snd ` set (entries_of (heap fs' r))"
    from c have "c \<in> snd ` set (entries_of (heap fs r))"
      using s1 [of r] by (auto simp: fs' s3)
    then show "c < next_ref fs'"
      using wf_fsD(3) [OF wf, of r c] r by (simp add: fs')
  qed
qed

lemma wf_createDirectory:
  assumes wf: "wf_fs fs" and ok: "createDirectory fs now urlPath = Inr fs'"
  shows "wf_fs fs'"
proof -
  from ok obtain parent where
    p: "lookupDirectory fs (dirname urlPath) False = Inr parent"
    by (auto simp: createDirectory_def Let_def split: sum.splits)
  define e where "e = next_ref fs"
  define h0 where "h0 = (heap fs)(e := Directory (new_InMemoryDirectory now (basename urlPath)))"
  define h1 where "h1 = h0(parent :=
      update_directory (\<lambda>d. d\<lparr>entries := AList.update (basename urlPath) e (entries d)\<rparr>) (h0 parent))"
  define h2 where "h2 = h1(parent := update_directory (\<lambda>d. d\<lparr>mtime := now\<rparr>) (h1 parent))"
  define h3 where "h3 = h2(parent := update_directory (\<lambda>d. d\<lparr>size' := size' d + 1\<rparr>) (h2 parent))"
  from ok p have fs': "fs' = fs\<lparr>heap := h3, next_ref := Suc e\<rparr>"
    by (auto simp: createDirectory_def Let_def h0_def h1_def h2_def h3_def e_def)
  have pa: "parent < next_ref fs"
    using wf p by (rule lookupDirectory_allocated)
  have d0: "r < next_ref fs \<Longrightarrow> h0 r = heap fs r" for r
    by (simp add: h0_def e_def)
  have e0: "entries_of (h0 e) = []"
    by (simp add: h0_def entries_of_def new_InMemoryDirectory_def)
  have d: "is_directory (h3 r) = is_directory (h0 r)" for r
    by (simp add: h3_def h2_def h1_def)
  have s1: "snd ` set (entries_of (h1 r)) \<subseteq> insert e (snd ` set (entries_of (h0 r)))" for r
    using entries_of_update_update [of "basename urlPath" e "h0 parent"]
    by (auto simp: h1_def)
  have s3: "entries_of (h3 r) = entries_of (h1 r)" for r
    by (simp add: h3_def h2_def)
  show ?thesis
  proof (rule wf_fsI)
    show "root < next_ref fs'"
      using wf_fsD(1) [OF wf] by (simp add: fs' e_def)
    show "is_directory (heap fs' root)"
      using wf_fsD(1,2) [OF wf] by (simp add: fs' d d0)
  next
    fix r c
    assume r: "r < next_ref fs'" and c: "c \<in> snd ` set (entries_of (heap fs' r))"
    from c have c1: "c = e \<or> c \<in> snd ` set (entries_of (h0 r))"
      using s1 [of r] by (auto simp: fs' s3)
    show "c < next_ref fs'"
    proof (cases "r = e")
      case True
      with c1 e0 show ?thesis by (simp add: fs')
    next
      case False
      with r have ra: "r < next_ref fs" by (simp add: fs' e_def)
      with c1 have "c = e \<or> c \<in> snd ` set (entries_of (heap fs r))"
        by (simp add: d0)
      then show ?thesis
      proof
        assume "c = e"
        then show ?thesis by (simp add: fs')
      next
        assume "c \<in> snd ` set (entries_of (heap fs r))"
        then have "c < next_ref fs"
          by (rule wf_fsD(3) [OF wf ra])
        then show ?thesis by (simp add: fs' e_def)
      qed
    qed
  qed
qed

lemma wf_writeFile:
  assumes wf: "wf_fs fs" and ok: "writeFile fs now urlPath content create overwrite = Inr (created, fs')"
  shows "wf_fs fs'"
proof -
  from ok obtain parent where p: "lookupParentDirectory fs urlPath = Inr parent"
    by (auto simp: writeFile_def Let_def split: sum.splits)
  from p have "is_directory (heap fs parent)"
    unfolding lookupParentDirectory_def by (rule lookupDirectory_Inr)
  then obtain d where d: "heap fs parent = Directory d"
    by (auto simp: is_directory_def split: Entry.splits)
  have pa: "parent < next_ref fs"
    using wf p unfolding lookupParentDirectory_def by (rule lookupDirectory_allocated)
  show ?thesis
  proof (cases "map_of (entries_of (heap fs parent)) (basename urlPath)")
    case None
    with ok p have c: create
      by (auto simp: writeFile_def Let_def split: if_splits)
    from pa have ne: "parent \<noteq> next_ref fs"
      by simp
    from ok c have "writeFile fs now urlPath content True overwrite = Inr (created, fs')"
      by simp
    then have fs': "fs' = fs\<lparr>heap := (heap fs)
          (next_ref fs := File ((new_InMemoryFile now (basename urlPath))
                \<lparr>mtime := now, size' := int (length content), data := content\<rparr>),
           parent := Directory (d\<lparr>entries := AList.update (basename urlPath) (next_ref fs) (entries d)\<rparr>)),
        next_ref := Suc (next_ref fs)\<rparr>"
      unfolding writeFile_new [OF p None d ne] by simp
    show ?thesis
    proof (rule wf_fsI)
      show "root < next_ref fs'"
        using wf_fsD(1) [OF wf] by (simp add: fs')
      show "is_directory (heap fs' root)"
        using wf_fsD(1,2) [OF wf] by (simp add: fs' is_directory_def)
    next
      fix r c
      assume r: "r < next_ref fs'" and c: "c \<in> snd ` set (entries_of (heap fs' r))"
      show "c < next_ref fs'"
      proof (cases "r = parent")
        case True
        with c ne have "c \<in> snd ` set (AList.update (basename urlPath) (next_ref fs) (entries d))"
          by (simp add: fs' entries_of_def)
        with snd_set_update [of "basename urlPath" "next_ref fs" "entries d"]
        have "c \<in> insert (next_ref fs) (snd ` set (entries d))"
          by (rule subsetD)
        then have "c = next_ref fs \<or> c \<in> snd ` set (entries_of (heap fs parent))"
          by (simp add: d entries_of_def)
        then show ?thesis
        proof
          assume "c = next_ref fs"
          then show ?thesis by (simp add: fs')
        next
          assume "c \<in> snd ` set (entries_of (heap fs parent))"
          then have "c < next_ref fs"
            by (rule wf_fsD(3) [OF wf pa])
          then show ?thesis by (simp add: fs')
        qed
      next
        case False
        show ?thesis
        proof (cases "r = next_ref fs")
          case True
          with c False show ?thesis by (simp add: fs' entries_of_def)
        next
          case nr: False
          with r have ra: "r < next_ref fs" by (simp add: fs')
          from c False nr have "c \<in> snd ` set (entries_of (heap fs r))"
            by (simp add: fs')
          with wf_fsD(3) [OF wf ra, of c] show ?thesis
            by (simp add: fs')
        qed
      qed
    qed
  next
    case (Some e)
    with ok p have nd: "\<not> is_directory (heap fs e)" and go: "\<not> (create \<and> \<not> overwrite)"
      by (auto simp: writeFile_def Let_def split: if_splits)
    from nd obtain f where f: "heap fs e = File f"
      by (auto simp: is_directory_def split: Entry.splits)
    from ok [unfolded writeFile_existing [OF p Some f go]]
    have fs': "fs' = fs\<lparr>heap := (heap fs)(e :=
        File (f\<lparr>mtime := now, size' := int (length content), data := content\<rparr>))\<rparr>"
      by simp
    have same: "entries_of (heap fs' r) = entries_of (heap fs r)" for r
      by (simp add: fs' entries_of_def f)
    have dir: "is_directory (heap fs' r) = is_directory (heap fs r)" for r
      by (simp add: fs' is_directory_def f)
    have nx: "next_ref fs' = next_ref fs"
      by (simp add: fs')
    show ?thesis
    proof (rule wf_fsI)
      show "root < next_ref fs'"
        using wf_fsD(1) [OF wf] by (simp add: nx)
      show "is_directory (heap fs' root)"
        using wf_fsD(2) [OF wf] by (simp add: dir)
    next
      fix r c
      assume "r < next_ref fs'" and "c \<in> snd ` set (entries_of (heap fs' r))"
      then show "c < next_ref fs'"
        unfolding nx same by (rule wf_fsD(3) [OF wf])
    qed
  qed
qed

lemma wf_apply_op:
  assumes "wf_fs fs" and "apply_op fs now operation = Inr fs'"
  shows "wf_fs fs'"
proof (cases operation)
  case (Rename oldPath newPath overwrite)
  with assms show ?thesis
    by (auto simp: apply_op_def intro: wf_rename)
next
  case (WriteFile urlPath content create overwrite)
  with assms(2) obtain created where
    "writeFile fs now urlPath content create overwrite = Inr (created, fs')"
    by (auto simp: apply_op_def split: sum.splits)
  with assms(1) show ?thesis
    by (rule wf_writeFile)
next
  case (DeleteFile urlPath)
  with assms show ?thesis
    by (auto simp: apply_op_def intro: wf_deleteFile)
next
  case (CreateDirectory urlPath)
  with assms show ?thesis
    by (auto simp: apply_op_def intro: wf_createDirectory)
qed

lemma wf_run: "wf_fs fs \<Longrightarrow> wf_fs (run fs operations)"
proof (induction operations arbitrary: fs)
  case Nil
  then show ?case by simp
next
  case (Cons step operations)
  obtain now operation where step: "step = (now, operation)"
    by (cases step)
  show ?case
  proof (cases "apply_op fs now operation")
    case (Inl e)
    with Cons step show ?thesis by simp
  next
    case (Inr fs')
    with Cons.prems have "wf_fs fs'"
      by (rule wf_apply_op)
    then have "wf_fs (run fs' operations)"
      by (rule Cons.IH)
    with Inr step show ?thesis by simp
  qed
qed

lemma wf_states: "wf_fs (run (createInMemoryFileSystem now) operations)"
  using wf_createInMemoryFileSystem by (rule wf_run)

text \<open>
  Claim C3. In every state of the file system, for a path whose parent directory exists, with
  \<open>target\<close> the child that the parent's map holds under the path's basename:
  \<open>writeFile\<close> fails with \<open>FileIsADirectory\<close> if the target is a directory, with
  \<open>FileNotFound\<close> if the target is absent and \<open>create\<close> is false, with \<open>FileExists\<close>
  if the target is a file and \<open>create\<close> is true and \<open>overwrite\<close> is false; otherwise it
  succeeds, the parent's map holds under the basename a file with the given content, the
  content's length as size and the current time as modification time, and the result is
  true exactly when the target was absent, the file then being a newly allocated one.
  On the empty tree, writing \<open>/a.txt\<close> with \<open>create\<close> and without \<open>overwrite\<close> succeeds
  with result true, the same call again fails with \<open>FileExists\<close>, and with
  \<open>overwrite\<close> it succeeds with result false and the file holds the new content.
\<close>

theorem writeFile_postcondition:
  assumes "fs = run (createInMemoryFileSystem start) operations"
    and "lookupParentDirectory fs path = Inr parent"
    and "map_of (entries_of (heap fs parent)) (basename path) = target"
  shows
    "(\<forall>t. target = Some t \<and> is_directory (heap fs t) \<longrightarrow>
        writeFile fs now path content create overwrite = Inl FileIsADirectory)
   \<and> (target = None \<and> \<not> create \<longrightarrow>
        writeFile fs now path content create overwrite = Inl FileNotFound)
   \<and> (\<forall>t. target = Some t \<and> \<not> is_directory (heap fs t) \<and> create \<and> \<not> overwrite \<longrightarrow>
        writeFile fs now path content create overwrite = Inl FileExists)
   \<and> ((\<exists>t. target = Some t \<and> \<not> is_directory (heap fs t)) \<and> \<not> (create \<and> \<not> overwrite)
        \<or> target = None \<and> create \<longrightarrow>
        (\<exists>fs' e f. writeFile fs now path content create overwrite = Inr (target = None, fs')
          \<and> map_of (entries_of (heap fs' parent)) (basename path) = Some e
          \<and> heap fs' e = File f \<and> data f = content \<and> size' f = int (length content) \<and> mtime f = now
          \<and> (target = None \<longrightarrow> e = next_ref fs \<and> next_ref fs' = Suc (next_ref fs))
          \<and> (\<forall>t. target = Some t \<longrightarrow> e = t \<and> next_ref fs' = next_ref fs)))
   \<and> (\<exists>fs1 fs2 e f.
         writeFile (createInMemoryFileSystem t0) t1 ''/a.txt'' content0 True False = Inr (True, fs1)
       \<and> writeFile fs1 t2 ''/a.txt'' content0 True False = Inl FileExists
       \<and> writeFile fs1 t2 ''/a.txt'' content1 True True = Inr (False, fs2)
       \<and> lookupFile fs2 ''/a.txt'' = Inr e \<and> heap fs2 e = File f \<and> data f = content1)"
proof -
  have wf: "wf_fs fs"
    unfolding assms(1) by (rule wf_states)
  note p = assms(2) and t = assms(3)
  show ?thesis
  proof (intro conjI allI impI)
    fix t' assume "target = Some t' \<and> is_directory (heap fs t')"
    with t have "map_of (entries_of (heap fs parent)) (basename path) = Some t'"
      and "is_directory (heap fs t')"
      by simp_all
    then show "writeFile fs now path content create overwrite = Inl FileIsADirectory"
      by (rule writeFile_errors(1) [OF p])
  next
    assume "target = None \<and> \<not> create"
    with t have "map_of (entries_of (heap fs parent)) (basename path) = None" and "\<not> create"
      by simp_all
    then show "writeFile fs now path content create overwrite = Inl FileNotFound"
      by (rule writeFile_errors(2) [OF p])
  next
    fix t' assume "target = Some t' \<and> \<not> is_directory (heap fs t') \<and> create \<and> \<not> overwrite"
    with t have "map_of (entries_of (heap fs parent)) (basename path) = Some t'"
      and "\<not> is_directory (heap fs t')" and create and "\<not> overwrite"
      by simp_all
    then show "writeFile fs now path content create overwrite = Inl FileExists"
      by (rule writeFile_errors(3) [OF p])
  next
    assume "(\<exists>t. target = Some t \<and> \<not> is_directory (heap fs t)) \<and> \<not> (create \<and> \<not> overwrite)
          \<or> target = None \<and> create"
    with wf p t show "\<exists>fs' e f. writeFile fs now path content create overwrite = Inr (target = None, fs')
            \<and> map_of (entries_of (heap fs' parent)) (basename path) = Some e
            \<and> heap fs' e = File f \<and> data f = content \<and> size' f = int (length content) \<and> mtime f = now
            \<and> (target = None \<longrightarrow> e = next_ref fs \<and> next_ref fs' = Suc (next_ref fs))
            \<and> (\<forall>t. target = Some t \<longrightarrow> e = t \<and> next_ref fs' = next_ref fs)"
      by (rule writeFile_succeeds)
  next
    show "\<exists>fs1 fs2 e f.
           writeFile (createInMemoryFileSystem t0) t1 ''/a.txt'' content0 True False = Inr (True, fs1)
         \<and> writeFile fs1 t2 ''/a.txt'' content0 True False = Inl FileExists
         \<and> writeFile fs1 t2 ''/a.txt'' content1 True True = Inr (False, fs2)
         \<and> lookupFile fs2 ''/a.txt'' = Inr e \<and> heap fs2 e = File f \<and> data f = content1"
      by (rule writeFile_scenario)
  qed
qed

lemma empty_root:
  "heap (createInMemoryFileSystem now) root = Directory (new_InMemoryDirectory now [])"
  by (simp add: createInMemoryFileSystem_def)

lemma empty_parent: "lookupParentDirectory (createInMemoryFileSystem now) ''/a.txt'' = Inr root"
  by (rule parent_of_root_file) (simp add: empty_root is_directory_def)

theorem writeFile_postcondition_witness:
  "createInMemoryFileSystem 0 = run (createInMemoryFileSystem 0) []
   \<and> lookupParentDirectory (createInMemoryFileSystem 0) ''/a.txt'' = Inr root
   \<and> map_of (entries_of (heap (createInMemoryFileSystem 0) root)) (basename ''/a.txt'') = None
   \<and> (\<exists>fs' e f. writeFile (createInMemoryFileSystem 0) 1 ''/a.txt'' [104, 105] True False = Inr (True, fs')
          \<and> map_of (entries_of (heap fs' root)) (basename ''/a.txt'') = Some e
          \<and> heap fs' e = File f \<and> data f = [104, 105] \<and> size' f = 2 \<and> mtime f = 1)"
proof -
  have t: "map_of (entries_of (heap (createInMemoryFileSystem 0) root)) (basename ''/a.txt'') = None"
    by (simp add: empty_root entries_of_def new_InMemoryDirectory_def)
  have r: "createInMemoryFileSystem 0 = run (createInMemoryFileSystem 0) []"
    by simp
  from writeFile_postcondition [OF r empty_parent t,
      where now = 1 and content = "[104, 105]" and create = True and overwrite = False]
  have "\<exists>fs' e f. writeFile (createInMemoryFileSystem 0) 1 ''/a.txt'' [104, 105] True False
            = Inr (None = (None :: ref option), fs')
          \<and> map_of (entries_of (heap fs' root)) (basename ''/a.txt'') = Some e
          \<and> heap fs' e = File f \<and> data f = [104, 105] \<and> size' f = int (length [104, 105 :: byte])
          \<and> mtime f = 1
          \<and> (None = (None :: ref option) \<longrightarrow> e = next_ref (createInMemoryFileSystem 0)
                \<and> next_ref fs' = Suc (next_ref (createInMemoryFileSystem 0)))
          \<and> (\<forall>t. (None :: ref option) = Some t \<longrightarrow> e = t \<and> next_ref fs' = next_ref (createInMemoryFileSystem 0))"
    by simp
  then have "\<exists>fs' e f. writeFile (createInMemoryFileSystem 0) 1 ''/a.txt'' [104, 105] True False = Inr (True, fs')
          \<and> map_of (entries_of (heap fs' root)) (basename ''/a.txt'') = Some e
          \<and> heap fs' e = File f \<and> data f = [104, 105] \<and> size' f = 2 \<and> mtime f = 1"
    by (elim exE conjE) (intro exI conjI, simp_all)
  with r empty_parent t show ?thesis
    by (intro conjI)
qed

lemma createDirectory_eq:
  assumes p: "lookupDirectory fs (dirname path) False = Inr parent"
    and d: "heap fs parent = Directory d"
    and ne: "parent \<noteq> next_ref fs"
  shows "createDirectory fs now path =
     Inr (fs\<lparr>heap := (heap fs)
            (next_ref fs := Directory (new_InMemoryDirectory now (basename path)),
             parent := Directory (d\<lparr>entries := AList.update (basename path) (next_ref fs) (entries d),
                                    mtime := now, size' := size' d + 1\<rparr>)),
          next_ref := Suc (next_ref fs)\<rparr>)"
  using ne by (simp add: createDirectory_def p d update_directory_def Let_def)

lemma createDirectory_errors:
  assumes "createDirectory fs now path = Inl e"
  shows "e = FileNotFound \<or> e = FileNotADirectory"
  using assms
  by (auto simp: createDirectory_def lookupDirectory_def lookup_impl_def Let_def
      split: sum.splits option.splits if_splits Entry.splits)

lemma fileExists_response_legal:
  assumes "is_uuid commandId"
  shows "createDirectoryResponseSchema (errorResponse ''FileExists'' commandId)
           = Some (errorResponse ''FileExists'' commandId)"
  using assms
  by (simp add: createDirectoryResponseSchema_def createDirectorySuccessResponseSchema_def
      voidSuccessResponseSchema_def fileNotFoundResponseSchema_def fileExistsResponseSchema_def
      errorResponseSchema_def errorResponse_def z_object_def extend_shape_def response_json_shape_def
      z_uuid_def z_literal_bool_def z_literal_def Response_def)

text \<open>
  Claim C9. In every state of the file system, for a path whose parent directory exists,
  \<open>createDirectory\<close> succeeds whatever the parent's map holds under the path's basename:
  afterwards the map holds under that name a newly allocated directory that is empty,
  the parent's size is one more than before and its modification time is the current
  time, and no other object has changed. \<open>createDirectory\<close> never fails with
  \<open>FileExists\<close>, although the response schema of \<open>createDirectory\<close> accepts a failure
  response with that code.
\<close>

theorem createDirectory_replaces:
  assumes "fs = run (createInMemoryFileSystem start) operations"
    and "lookupDirectory fs (dirname path) False = Inr parent"
    and "heap fs parent = Directory d"
  shows
    "(\<exists>fs'. createDirectory fs now path = Inr fs'
        \<and> heap fs' parent =
            Directory (d\<lparr>entries := AList.update (basename path) (next_ref fs) (entries d),
                         mtime := now, size' := size' d + 1\<rparr>)
        \<and> map_of (entries_of (heap fs' parent)) (basename path) = Some (next_ref fs)
        \<and> heap fs' (next_ref fs) = Directory (new_InMemoryDirectory now (basename path))
        \<and> entries_of (heap fs' (next_ref fs)) = []
        \<and> (\<forall>r < next_ref fs. next_ref fs \<notin> snd ` set (entries_of (heap fs r)))
        \<and> (\<forall>r. r \<noteq> parent \<and> r \<noteq> next_ref fs \<longrightarrow> heap fs' r = heap fs r))
   \<and> createDirectory fs0 now0 path0 \<noteq> Inl FileExists
   \<and> (is_uuid commandId \<longrightarrow>
        createDirectoryResponseSchema (errorResponse ''FileExists'' commandId)
          = Some (errorResponse ''FileExists'' commandId))"
proof (intro conjI impI)
  have wf: "wf_fs fs"
    unfolding assms(1) by (rule wf_states)
  have "parent < next_ref fs"
    using wf assms(2) by (rule lookupDirectory_allocated)
  then have ne: "parent \<noteq> next_ref fs"
    by simp
  have fresh: "\<forall>r < next_ref fs. next_ref fs \<notin> snd ` set (entries_of (heap fs r))"
    using wf_fsD(3) [OF wf] by blast
  show "\<exists>fs'. createDirectory fs now path = Inr fs'
        \<and> heap fs' parent =
            Directory (d\<lparr>entries := AList.update (basename path) (next_ref fs) (entries d),
                         mtime := now, size' := size' d + 1\<rparr>)
        \<and> map_of (entries_of (heap fs' parent)) (basename path) = Some (next_ref fs)
        \<and> heap fs' (next_ref fs) = Directory (new_InMemoryDirectory now (basename path))
        \<and> entries_of (heap fs' (next_ref fs)) = []
        \<and> (\<forall>r < next_ref fs. next_ref fs \<notin> snd ` set (entries_of (heap fs r)))
        \<and> (\<forall>r. r \<noteq> parent \<and> r \<noteq> next_ref fs \<longrightarrow> heap fs' r = heap fs r)"
    unfolding createDirectory_eq [OF assms(2,3) ne]
    using ne fresh by (simp add: entries_of_def update_conv' new_InMemoryDirectory_def)
next
  show "createDirectory fs0 now0 path0 \<noteq> Inl FileExists"
    using createDirectory_errors [of fs0 now0 path0 FileExists] by auto
next
  assume "is_uuid commandId"
  then show "createDirectoryResponseSchema (errorResponse ''FileExists'' commandId)
          = Some (errorResponse ''FileExists'' commandId)"
    by (rule fileExists_response_legal)
qed

lemma parent_of_root_dir:
  "is_directory (heap fs root) \<Longrightarrow> lookupDirectory fs (dirname ''/d'') False = Inr root"
  by (auto simp: lookupDirectory_def lookup_impl_def dirname_def
      is_directory_def split: Entry.splits)

theorem createDirectory_replaces_witness:
  "\<exists>fs1 fs2 d.
      createDirectory (createInMemoryFileSystem 0) 1 ''/d'' = Inr fs1
    \<and> map fst (entries_of (heap fs1 root)) = [''d'']
    \<and> createDirectory fs1 2 ''/d'' = Inr fs2
    \<and> heap fs2 root = Directory d \<and> map fst (entries d) = [''d''] \<and> size' d = 2
    \<and> map_of (entries d) ''d'' = Some 2 \<and> entries_of (heap fs2 2) = []"
proof -
  define fs0 where "fs0 = createInMemoryFileSystem 0"
  define d1 where "d1 = (new_InMemoryDirectory 0 [])\<lparr>entries := [(''d'', 1)], mtime := 1, size' := 1\<rparr>"
  define fs1 where "fs1 = fs0\<lparr>heap := (heap fs0)
            (1 := Directory (new_InMemoryDirectory 1 ''d''), root := Directory d1), next_ref := 2\<rparr>"
  have b: "basename ''/d'' = ''d''"
    by (simp add: basename_def)
  have r0: "heap fs0 root = Directory (new_InMemoryDirectory 0 [])" and n0: "next_ref fs0 = 1"
    by (simp_all add: fs0_def createInMemoryFileSystem_def)
  have p0: "lookupDirectory fs0 (dirname ''/d'') False = Inr root"
    by (rule parent_of_root_dir) (simp add: r0 is_directory_def)
  have ne0: "root \<noteq> next_ref fs0"
    by (simp add: n0 root_def)
  have c1: "createDirectory fs0 1 ''/d'' = Inr fs1"
    unfolding createDirectory_eq [OF p0 r0 ne0]
    by (simp add: b n0 new_InMemoryDirectory_def fs1_def d1_def numeral_2_eq_2)
  have run1: "fs1 = run (createInMemoryFileSystem 0) [(1, CreateDirectory ''/d'')]"
    using c1 by (simp add: apply_op_def fs0_def)
  have r1: "heap fs1 root = Directory d1" and n1: "next_ref fs1 = 2"
    by (simp_all add: fs1_def root_def)
  have p1: "lookupDirectory fs1 (dirname ''/d'') False = Inr root"
    by (rule parent_of_root_dir) (simp add: r1 is_directory_def)
  have l1: "map fst (entries_of (heap fs1 root)) = [''d'']"
    by (simp add: r1 entries_of_def d1_def)
  from createDirectory_replaces [OF run1 p1 r1, where now = 2]
  obtain fs2 where c2: "createDirectory fs1 2 ''/d'' = Inr fs2"
    and r2: "heap fs2 root =
       Directory (d1\<lparr>entries := AList.update (basename ''/d'') (next_ref fs1) (entries d1),
                    mtime := 2, size' := size' d1 + 1\<rparr>)"
    and e2: "entries_of (heap fs2 (next_ref fs1)) = []"
    by blast
  have k: "map fst (entries (d1\<lparr>entries := AList.update (basename ''/d'') (next_ref fs1) (entries d1),
                    mtime := 2, size' := size' d1 + 1\<rparr>)) = [''d'']"
    by (simp add: b d1_def)
  have s: "size' (d1\<lparr>entries := AList.update (basename ''/d'') (next_ref fs1) (entries d1),
                    mtime := 2, size' := size' d1 + 1\<rparr>) = 2"
    by (simp add: d1_def)
  have m: "map_of (entries (d1\<lparr>entries := AList.update (basename ''/d'') (next_ref fs1) (entries d1),
                    mtime := 2, size' := size' d1 + 1\<rparr>)) ''d'' = Some 2"
    by (simp add: b d1_def n1)
  from c1 l1 c2 r2 k s m e2 [unfolded n1] show ?thesis
    unfolding fs0_def by (intro exI conjI)
qed

text \<open>
  Claim C4 at the failing input: after the sequence of the one operation \<open>writeFile\<close>
  that creates \<open>/a.txt\<close> in the empty tree, the root directory has one child and its
  size is still zero.
\<close>

theorem writeFile_leaves_parent_size:
  "(case heap (run (createInMemoryFileSystem 0) [(1, WriteFile ''/a.txt'' [104, 105] True False)]) root of
      Directory d \<Rightarrow> map fst (entries d) = [''a.txt''] \<and> size' d = 0
    | File f \<Rightarrow> False)"
proof -
  define fs0 where "fs0 = createInMemoryFileSystem 0"
  have r0: "heap fs0 root = Directory (new_InMemoryDirectory 0 [])" and n0: "next_ref fs0 = 1"
    by (simp_all add: fs0_def createInMemoryFileSystem_def)
  have p0: "lookupParentDirectory fs0 ''/a.txt'' = Inr root"
    unfolding fs0_def by (rule empty_parent)
  have e0: "map_of (entries_of (heap fs0 root)) (basename ''/a.txt'') = None"
    by (simp add: r0 entries_of_def new_InMemoryDirectory_def)
  have ne0: "root \<noteq> next_ref fs0"
    by (simp add: n0 root_def)
  have b: "basename ''/a.txt'' = ''a.txt''"
    by (simp add: basename_def)
  show ?thesis
    unfolding fs0_def [symmetric]
    by (simp add: apply_op_def writeFile_new [OF p0 e0 r0 ne0] b new_InMemoryDirectory_def)
qed

lemma rename_eq:
  assumes e: "lookup_impl fs oldPath False = Inr (Some entry)"
    and op: "lookupParentDirectory fs oldPath = Inr oldParent"
    and np: "lookupParentDirectory fs newPath = Inr newParent"
    and go: "overwrite \<or> lookup fs newPath = None"
    and h1: "h1 = (heap fs)(oldParent :=
      update_directory (\<lambda>d. d\<lparr>entries := AList.delete (entry_name (heap fs entry)) (entries d)\<rparr>)
        (heap fs oldParent))"
    and h2: "h2 = h1(entry := set_entry_name (basename newPath) (h1 entry))"
    and h3: "h3 = h2(newParent :=
      update_directory (\<lambda>d. d\<lparr>entries := AList.update (basename newPath) entry (entries d)\<rparr>)
        (h2 newParent))"
  shows "rename fs oldPath newPath overwrite = Inr (fs\<lparr>heap := h3\<rparr>)"
  using go by (auto simp: rename_def e op np h1 h2 h3 Let_def)

lemma entry_name_update_directory_entries [simp]:
  "entry_name (update_directory (\<lambda>d. d\<lparr>entries := g d\<rparr>) e) = entry_name e"
  by (simp add: entry_name_def update_directory_def split: Entry.splits)

lemma entry_name_set_entry_name [simp]: "entry_name (set_entry_name n e) = n"
  by (simp add: entry_name_def set_entry_name_def split: Entry.splits)

lemma entries_of_update_entries:
  "is_directory e \<Longrightarrow> entries_of (update_directory (\<lambda>d. d\<lparr>entries := g (entries d)\<rparr>) e) = g (entries_of e)"
  by (simp add: entries_of_def update_directory_def is_directory_def split: Entry.splits)

text \<open>
  What the three assignments of \<open>rename\<close> do to the two maps, for an entry stored under
  the name it carries.
\<close>

lemma rename_moves:
  assumes e: "lookup_impl fs oldPath False = Inr (Some entry)"
    and op: "lookupParentDirectory fs oldPath = Inr oldParent"
    and np: "lookupParentDirectory fs newPath = Inr newParent"
    and nm: "entry_name (heap fs entry) = basename oldPath"
    and go: "overwrite \<or> lookup fs newPath = None"
  shows "\<exists>fs'. rename fs oldPath newPath overwrite = Inr fs'
              \<and> entry_name (heap fs' entry) = basename newPath
              \<and> map_of (entries_of (heap fs' newParent)) (basename newPath) = Some entry
              \<and> (oldParent \<noteq> newParent \<or> basename oldPath \<noteq> basename newPath \<longrightarrow>
                   map_of (entries_of (heap fs' oldParent)) (basename oldPath) = None)"
proof -
  define h1 where "h1 = (heap fs)(oldParent :=
      update_directory (\<lambda>d. d\<lparr>entries := AList.delete (entry_name (heap fs entry)) (entries d)\<rparr>)
        (heap fs oldParent))"
  define h2 where "h2 = h1(entry := set_entry_name (basename newPath) (h1 entry))"
  define h3 where "h3 = h2(newParent :=
      update_directory (\<lambda>d. d\<lparr>entries := AList.update (basename newPath) entry (entries d)\<rparr>)
        (h2 newParent))"
  have r: "rename fs oldPath newPath overwrite = Inr (fs\<lparr>heap := h3\<rparr>)"
    using e op np go h1_def h2_def h3_def by (rule rename_eq)
  have od: "is_directory (heap fs oldParent)"
    using op unfolding lookupParentDirectory_def by (rule lookupDirectory_Inr)
  have nd: "is_directory (heap fs newParent)"
    using np unfolding lookupParentDirectory_def by (rule lookupDirectory_Inr)
  have d1: "is_directory (h1 r) = is_directory (heap fs r)" for r
    by (simp add: h1_def)
  have d2: "is_directory (h2 r) = is_directory (heap fs r)" for r
    by (simp add: h2_def d1)
  have n2: "entry_name (h2 entry) = basename newPath"
    by (simp add: h2_def)
  have n3: "entry_name (h3 entry) = basename newPath"
    using n2 by (auto simp: h3_def)
  have e1: "entries_of (h1 oldParent) = AList.delete (basename oldPath) (entries_of (heap fs oldParent))"
    using od by (simp add: h1_def nm entries_of_update_entries)
  have e2: "entries_of (h2 r) = entries_of (h1 r)" for r
    by (simp add: h2_def)
  have e3: "entries_of (h3 newParent) = AList.update (basename newPath) entry (entries_of (h2 newParent))"
    using nd by (simp add: h3_def d2 entries_of_update_entries)
  have new: "map_of (entries_of (h3 newParent)) (basename newPath) = Some entry"
    by (simp add: e3 update_conv')
  have old: "map_of (entries_of (h3 oldParent)) (basename oldPath) = None"
    if "oldParent \<noteq> newParent \<or> basename oldPath \<noteq> basename newPath"
  proof (cases "oldParent = newParent")
    case True
    with that have "basename oldPath \<noteq> basename newPath"
      by simp
    then show ?thesis
      using e3 by (simp add: True [symmetric] e2 e1 update_conv' delete_conv')
  next
    case False
    then have "h3 oldParent = h2 oldParent"
      by (simp add: h3_def)
    then show ?thesis
      by (simp add: e2 e1 delete_conv')
  qed
  from n3 new old show ?thesis
    unfolding r by simp
qed

lemma lookup_impl_eval:
  "lookup_parts (heap fs) root (split CHR ''/'' urlPath) = r \<Longrightarrow>
   lookup_impl fs urlPath silent = (case r of None \<Rightarrow> (if \<not> silent then Inl FileNotFound else Inr None)
      | Some entry \<Rightarrow> Inr (Some entry))"
  by (simp add: lookup_impl_def)

text \<open>
  The scenario of the specification: with \<open>/dir\<close> empty, renaming \<open>/a.txt\<close> to
  \<open>/dir/a.txt\<close> moves the file from the map of the root to the map of \<open>/dir\<close>.
\<close>

lemma rename_scenario:
  "(case createDirectory (createInMemoryFileSystem 0) 1 ''/dir'' of
      Inl e \<Rightarrow> False
    | Inr fs1 \<Rightarrow>
       (case writeFile fs1 2 ''/a.txt'' [104, 105] True False of
          Inl e \<Rightarrow> False
        | Inr (created, fs2) \<Rightarrow>
            lookup_impl fs2 ''/a.txt'' False = Inr (Some 2)
          \<and> lookupParentDirectory fs2 ''/a.txt'' = Inr root
          \<and> lookupParentDirectory fs2 ''/dir/a.txt'' = Inr 1
          \<and> entry_name (heap fs2 2) = basename ''/a.txt''
          \<and> lookup fs2 ''/dir/a.txt'' = None
          \<and> (case rename fs2 ''/a.txt'' ''/dir/a.txt'' False of
                Inl e \<Rightarrow> False
              | Inr fs3 \<Rightarrow>
                  entry_name (heap fs3 2) = ''a.txt''
                \<and> map_of (entries_of (heap fs3 1)) ''a.txt'' = Some 2
                \<and> map_of (entries_of (heap fs3 root)) ''a.txt'' = None)))"
proof -
  define fs0 where "fs0 = createInMemoryFileSystem 0"
  define d1 where "d1 = (new_InMemoryDirectory 0 [])\<lparr>entries := [(''dir'', 1)], mtime := 1, size' := 1\<rparr>"
  define fs1 where "fs1 = fs0\<lparr>heap := (heap fs0)
        (1 := Directory (new_InMemoryDirectory 1 ''dir''), root := Directory d1), next_ref := 2\<rparr>"
  define f2 where "f2 = (new_InMemoryFile 2 ''a.txt'')\<lparr>mtime := 2, size' := 2, data := [104, 105]\<rparr>"
  define d2 where "d2 = d1\<lparr>entries := [(''dir'', 1), (''a.txt'', 2)]\<rparr>"
  define fs2 where "fs2 = fs1\<lparr>heap := (heap fs1)(2 := File f2, root := Directory d2), next_ref := 3\<rparr>"
  have bd: "basename ''/dir'' = ''dir''" and ba: "basename ''/a.txt'' = ''a.txt''"
    and bda: "basename ''/dir/a.txt'' = ''a.txt''"
    by (simp_all add: basename_def)
  have r0: "heap fs0 root = Directory (new_InMemoryDirectory 0 [])" and n0: "next_ref fs0 = 1"
    by (simp_all add: fs0_def createInMemoryFileSystem_def)
  have p0: "lookupDirectory fs0 (dirname ''/dir'') False = Inr root"
    by (simp add: lookupDirectory_def lookup_impl_def dirname_def r0)
  have ne0: "root \<noteq> next_ref fs0"
    by (simp add: n0 root_def)
  have c1: "createDirectory fs0 1 ''/dir'' = Inr fs1"
    unfolding createDirectory_eq [OF p0 r0 ne0]
    by (simp add: bd n0 new_InMemoryDirectory_def fs1_def d1_def numeral_2_eq_2)
  have r1: "heap fs1 root = Directory d1" and n1: "next_ref fs1 = 2"
    by (simp_all add: fs1_def root_def)
  have p1: "lookupParentDirectory fs1 ''/a.txt'' = Inr root"
    by (rule parent_of_root_file) (simp add: r1 is_directory_def)
  have e1: "map_of (entries_of (heap fs1 root)) (basename ''/a.txt'') = None"
    by (simp add: r1 entries_of_def d1_def ba)
  have ne1: "root \<noteq> next_ref fs1"
    by (simp add: n1 root_def)
  have w2: "writeFile fs1 2 ''/a.txt'' [104, 105] True False = Inr (True, fs2)"
    unfolding writeFile_new [OF p1 e1 r1 ne1]
    by (simp add: ba n1 fs2_def f2_def d2_def d1_def numeral_3_eq_3 numeral_2_eq_2)
  have h20: "heap fs2 root = Directory d2" and h21: "heap fs2 1 = Directory (new_InMemoryDirectory 1 ''dir'')"
    and h22: "heap fs2 2 = File f2"
    by (simp_all add: fs2_def fs1_def root_def)
  have l_a: "lookup_parts (heap fs2) root (split CHR ''/'' ''/a.txt'') = Some 2"
    by (simp add: h20 d2_def d1_def)
  have l_root: "lookup_parts (heap fs2) root (split CHR ''/'' (dirname ''/a.txt'')) = Some root"
    by (simp add: dirname_def)
  have l_dir: "lookup_parts (heap fs2) root (split CHR ''/'' (dirname ''/dir/a.txt'')) = Some 1"
    by (simp add: dirname_def h20 d2_def d1_def)
  have l_new: "lookup_parts (heap fs2) root (split CHR ''/'' ''/dir/a.txt'') = None"
    using h21 by (simp add: h20 d2_def d1_def new_InMemoryDirectory_def)
  have a1: "lookup_impl fs2 ''/a.txt'' False = Inr (Some 2)"
    by (simp add: lookup_impl_eval [OF l_a])
  have a2: "lookupParentDirectory fs2 ''/a.txt'' = Inr root"
    by (simp add: lookupParentDirectory_def lookupDirectory_def lookup_impl_eval [OF l_root] h20)
  have a3: "lookupParentDirectory fs2 ''/dir/a.txt'' = Inr 1"
    using h21 by (simp add: lookupParentDirectory_def lookupDirectory_def lookup_impl_eval [OF l_dir])
  have a4: "entry_name (heap fs2 2) = basename ''/a.txt''"
    by (simp add: h22 entry_name_def f2_def new_InMemoryFile_def ba)
  have a5: "lookup fs2 ''/dir/a.txt'' = None"
    by (simp add: lookup_def lookup_impl_eval [OF l_new])
  from rename_moves [OF a1 a2 a3 a4, where overwrite = False] a5
  obtain fs3 where r3: "rename fs2 ''/a.txt'' ''/dir/a.txt'' False = Inr fs3"
    and n3: "entry_name (heap fs3 2) = basename ''/dir/a.txt''"
    and m3: "map_of (entries_of (heap fs3 1)) (basename ''/dir/a.txt'') = Some 2"
    and o3: "root \<noteq> 1 \<or> basename ''/a.txt'' \<noteq> basename ''/dir/a.txt'' \<longrightarrow>
       map_of (entries_of (heap fs3 root)) (basename ''/a.txt'') = None"
    by blast
  from o3 have o3': "map_of (entries_of (heap fs3 root)) ''a.txt'' = None"
    by (simp add: root_def ba)
  show ?thesis
    unfolding fs0_def [symmetric] c1 sum.case w2 prod.case r3
    using a1 a2 a3 a4 a5 n3 m3 o3' by (simp add: bda)
qed

text \<open>
  Claim C6 at the failing input: in the tree that holds the one directory \<open>/d\<close>, the path
  \<open>/d\<close> names an existing entry whose parent exists, the parent directory of \<open>/d/e\<close>
  exists and no entry exists at \<open>/d/e\<close>. \<open>rename\<close> from \<open>/d\<close> to \<open>/d/e\<close> succeeds, and
  afterwards neither \<open>/d\<close> nor \<open>/d/e\<close> names an entry: the root is empty, and the
  directory, now named \<open>e\<close>, is the one child of itself.
\<close>

theorem rename_into_own_subtree:
  "(case createDirectory (createInMemoryFileSystem 0) 1 ''/d'' of
      Inl e \<Rightarrow> False
    | Inr fs1 \<Rightarrow>
        lookup fs1 ''/d'' = Some 1
      \<and> lookupParentDirectory fs1 ''/d'' = Inr root
      \<and> lookupParentDirectory fs1 ''/d/e'' = Inr 1
      \<and> lookup fs1 ''/d/e'' = None
      \<and> (case rename fs1 ''/d'' ''/d/e'' False of
            Inl e \<Rightarrow> False
          | Inr fs2 \<Rightarrow>
              lookup fs2 ''/d'' = None
            \<and> lookup fs2 ''/d/e'' = None
            \<and> entries_of (heap fs2 root) = []
            \<and> entries_of (heap fs2 1) = [(''e'', 1)]
            \<and> entry_name (heap fs2 1) = ''e''))"
proof -
  define fs0 where "fs0 = createInMemoryFileSystem 0"
  define d1 where "d1 = (new_InMemoryDirectory 0 [])\<lparr>entries := [(''d'', 1)], mtime := 1, size' := 1\<rparr>"
  define fs1 where "fs1 = fs0\<lparr>heap := (heap fs0)
        (1 := Directory (new_InMemoryDirectory 1 ''d''), root := Directory d1), next_ref := 2\<rparr>"
  have bd: "basename ''/d'' = ''d''" and be: "basename ''/d/e'' = ''e''"
    by (simp_all add: basename_def)
  have r0: "heap fs0 root = Directory (new_InMemoryDirectory 0 [])" and n0: "next_ref fs0 = 1"
    by (simp_all add: fs0_def createInMemoryFileSystem_def)
  have p0: "lookupDirectory fs0 (dirname ''/d'') False = Inr root"
    by (simp add: lookupDirectory_def lookup_impl_def dirname_def r0)
  have ne0: "root \<noteq> next_ref fs0"
    by (simp add: n0 root_def)
  have c1: "createDirectory fs0 1 ''/d'' = Inr fs1"
    unfolding createDirectory_eq [OF p0 r0 ne0]
    by (simp add: bd n0 new_InMemoryDirectory_def fs1_def d1_def numeral_2_eq_2)
  have h10: "heap fs1 root = Directory d1" and h11: "heap fs1 1 = Directory (new_InMemoryDirectory 1 ''d'')"
    by (simp_all add: fs1_def root_def)
  have l_d: "lookup_parts (heap fs1) root (split CHR ''/'' ''/d'') = Some 1"
    by (simp add: h10 d1_def)
  have l_root: "lookup_parts (heap fs1) root (split CHR ''/'' (dirname ''/d'')) = Some root"
    by (simp add: dirname_def)
  have l_pd: "lookup_parts (heap fs1) root (split CHR ''/'' (dirname ''/d/e'')) = Some 1"
    by (simp add: dirname_def h10 d1_def)
  have l_new: "lookup_parts (heap fs1) root (split CHR ''/'' ''/d/e'') = None"
    using h11 by (simp add: h10 d1_def new_InMemoryDirectory_def)
  have a0: "lookup_impl fs1 ''/d'' False = Inr (Some 1)"
    by (simp add: lookup_impl_eval [OF l_d])
  have a1: "lookup fs1 ''/d'' = Some 1"
    by (simp add: lookup_def lookup_impl_eval [OF l_d])
  have a2: "lookupParentDirectory fs1 ''/d'' = Inr root"
    by (simp add: lookupParentDirectory_def lookupDirectory_def lookup_impl_eval [OF l_root] h10)
  have a3: "lookupParentDirectory fs1 ''/d/e'' = Inr 1"
    using h11 by (simp add: lookupParentDirectory_def lookupDirectory_def lookup_impl_eval [OF l_pd])
  have a4: "lookup fs1 ''/d/e'' = None"
    by (simp add: lookup_def lookup_impl_eval [OF l_new])
  define h1 where "h1 = (heap fs1)(root :=
      update_directory (\<lambda>d. d\<lparr>entries := AList.delete (entry_name (heap fs1 1)) (entries d)\<rparr>)
        (heap fs1 root))"
  define h2 where "h2 = h1(1 := set_entry_name (basename ''/d/e'') (h1 1))"
  define h3 where "h3 = h2(1 :=
      update_directory (\<lambda>d. d\<lparr>entries := AList.update (basename ''/d/e'') 1 (entries d)\<rparr>)
        (h2 1))"
  define fs2 where "fs2 = fs1\<lparr>heap := h3\<rparr>"
  have r2: "rename fs1 ''/d'' ''/d/e'' False = Inr fs2"
    unfolding fs2_def by (rule rename_eq [OF a0 a2 a3 _ h1_def h2_def h3_def]) (simp add: a4)
  have n1: "entry_name (heap fs1 1) = ''d''"
    using h11 by (simp add: entry_name_def new_InMemoryDirectory_def)
  have h1r: "h1 root = Directory (d1\<lparr>entries := []\<rparr>)"
    using n1 by (simp add: h1_def h10 update_directory_def d1_def)
  have h11': "h1 1 = Directory (new_InMemoryDirectory 1 ''d'')"
    using h11 by (simp add: h1_def root_def)
  have h2r: "heap fs2 root = Directory (d1\<lparr>entries := []\<rparr>)"
    using h1r by (simp add: fs2_def h3_def h2_def root_def)
  have h21: "heap fs2 1 = Directory ((new_InMemoryDirectory 1 ''d'')\<lparr>name := ''e'', entries := [(''e'', 1)]\<rparr>)"
    using h11' by (simp add: fs2_def h3_def h2_def be set_entry_name_def update_directory_def
        new_InMemoryDirectory_def)
  have g_d: "lookup_parts (heap fs2) root (split CHR ''/'' ''/d'') = None"
    by (simp add: h2r)
  have g_e: "lookup_parts (heap fs2) root (split CHR ''/'' ''/d/e'') = None"
    by (simp add: h2r)
  have b1: "lookup fs2 ''/d'' = None"
    by (simp add: lookup_def lookup_impl_eval [OF g_d])
  have b2: "lookup fs2 ''/d/e'' = None"
    by (simp add: lookup_def lookup_impl_eval [OF g_e])
  have b3: "entries_of (heap fs2 root) = []"
    by (simp add: h2r entries_of_def)
  have b4: "entries_of (heap fs2 1) = [(''e'', 1)]"
    using h21 by (simp add: entries_of_def)
  have b5: "entry_name (heap fs2 1) = ''e''"
    using h21 by (simp add: entry_name_def)
  show ?thesis
    unfolding fs0_def [symmetric] c1 sum.case r2
    using a1 a2 a3 a4 b1 b2 b3 b4 b5 by simp
qed

section \<open>The error taxonomy and the dispatcher\<close>

lemma lookup_impl_error: "lookup_impl fs urlPath silent = Inl e \<Longrightarrow> e = FileNotFound"
  by (simp add: lookup_impl_def split: option.splits if_splits)

lemma lookupDirectory_error:
  "lookupDirectory fs urlPath silent = Inl e \<Longrightarrow> e = FileNotFound \<or> e = FileNotADirectory"
  by (auto simp: lookupDirectory_def dest: lookup_impl_error split: sum.splits option.splits Entry.splits)

lemma lookupFile_error:
  "lookupFile fs urlPath = Inl e \<Longrightarrow> e = FileNotFound \<or> e = FileIsADirectory"
  by (auto simp: lookupFile_def dest: lookup_impl_error split: sum.splits option.splits Entry.splits)

lemma lookupParentDirectory_error:
  "lookupParentDirectory fs urlPath = Inl e \<Longrightarrow> e = FileNotFound \<or> e = FileNotADirectory"
  unfolding lookupParentDirectory_def by (rule lookupDirectory_error)

lemma rename_error:
  "rename fs oldPath newPath overwrite = Inl e
     \<Longrightarrow> e = FileExists \<or> e = FileNotFound \<or> e = FileNotADirectory"
  by (auto simp: rename_def Let_def dest: lookup_impl_error lookupParentDirectory_error
      split: if_splits sum.splits option.splits)

lemma writeFile_error:
  "writeFile fs now urlPath content create overwrite = Inl e
     \<Longrightarrow> e = FileNotFound \<or> e = FileNotADirectory \<or> e = FileIsADirectory \<or> e = FileExists"
  by (auto simp: writeFile_def Let_def dest: lookupParentDirectory_error
      split: if_splits sum.splits option.splits prod.splits)

lemma deleteFile_error:
  "deleteFile fs now urlPath = Inl e \<Longrightarrow> e = FileNotFound \<or> e = FileNotADirectory"
  by (auto simp: deleteFile_def Let_def dest: lookupDirectory_error split: if_splits sum.splits)

lemma errorResponseFromError_closed:
  "c \<in> {FileNotFound, FileExists, FileIsADirectory, NoPermissions}
     \<Longrightarrow> errorResponseFromError (FsError c) commandId = Inr (errorResponse (code c) commandId)"
  by (auto simp: errorResponseFromError_def)

lemma errorResponseFromError_other:
  "\<forall>c. error = FsError c \<longrightarrow> c \<notin> {FileNotFound, FileExists, FileIsADirectory, NoPermissions}
     \<Longrightarrow> errorResponseFromError error commandId = Inl error"
  by (auto simp: errorResponseFromError_def split: js_error.splits FileSystemError.splits)

lemma errorResponse_fields:
  "messageType (errorResponse c commandId) = Response
   \<and> messageBinary (errorResponse c commandId) = None
   \<and> (\<exists>obj. messageJson (errorResponse c commandId) = JObj obj
         \<and> fmlookup obj ''success'' = Some (JBool False)
         \<and> fmlookup obj ''error'' = Some (JStr c)
         \<and> fmlookup obj ''commandId'' = Some (JStr commandId))"
  by (simp add: errorResponse_def)

text \<open>
  Claim C5, amended. Every failure raised by the lookup and mutation operations of the
  tree is one of \<open>FileNotFound\<close>, \<open>FileExists\<close>, \<open>FileIsADirectory\<close> and
  \<open>FileNotADirectory\<close>. \<open>errorResponseFromError\<close> converts a failure with one of the
  codes \<open>FileNotFound\<close>, \<open>FileExists\<close>, \<open>FileIsADirectory\<close> and \<open>NoPermissions\<close> into a
  failure response that carries that code and the command identifier, and throws every
  other failure again, \<open>FileNotADirectory\<close> among them.
\<close>

theorem error_taxonomy:
  "(lookupFile fs p1 = Inl e1 \<longrightarrow> e1 \<in> {FileNotFound, FileExists, FileIsADirectory, FileNotADirectory})
   \<and> (lookupDirectory fs p2 silent = Inl e2 \<longrightarrow> e2 \<in> {FileNotFound, FileExists, FileIsADirectory, FileNotADirectory})
   \<and> (lookupParentDirectory fs p3 = Inl e3 \<longrightarrow> e3 \<in> {FileNotFound, FileExists, FileIsADirectory, FileNotADirectory})
   \<and> (rename fs p4 p5 overwrite = Inl e4 \<longrightarrow> e4 \<in> {FileNotFound, FileExists, FileIsADirectory, FileNotADirectory})
   \<and> (writeFile fs now p6 content create overwrite' = Inl e5 \<longrightarrow> e5 \<in> {FileNotFound, FileExists, FileIsADirectory, FileNotADirectory})
   \<and> (deleteFile fs now p7 = Inl e6 \<longrightarrow> e6 \<in> {FileNotFound, FileExists, FileIsADirectory, FileNotADirectory})
   \<and> (createDirectory fs now p8 = Inl e7 \<longrightarrow> e7 \<in> {FileNotFound, FileExists, FileIsADirectory, FileNotADirectory})
   \<and> (c \<in> {FileNotFound, FileExists, FileIsADirectory, NoPermissions} \<longrightarrow>
        errorResponseFromError (FsError c) commandId = Inr (errorResponse (code c) commandId)
        \<and> messageType (errorResponse (code c) commandId) = Response
        \<and> messageBinary (errorResponse (code c) commandId) = None
        \<and> (\<exists>obj. messageJson (errorResponse (code c) commandId) = JObj obj
              \<and> fmlookup obj ''success'' = Some (JBool False)
              \<and> fmlookup obj ''error'' = Some (JStr (code c))
              \<and> fmlookup obj ''commandId'' = Some (JStr commandId)))
   \<and> ((\<forall>c. error = FsError c \<longrightarrow> c \<notin> {FileNotFound, FileExists, FileIsADirectory, NoPermissions}) \<longrightarrow>
        errorResponseFromError error commandId = Inl error)
   \<and> errorResponseFromError (FsError FileNotADirectory) commandId = Inl (FsError FileNotADirectory)"
proof (intro conjI impI)
  assume "lookupFile fs p1 = Inl e1"
  from lookupFile_error [OF this]
  show "e1 \<in> {FileNotFound, FileExists, FileIsADirectory, FileNotADirectory}" by auto
next
  assume "lookupDirectory fs p2 silent = Inl e2"
  from lookupDirectory_error [OF this]
  show "e2 \<in> {FileNotFound, FileExists, FileIsADirectory, FileNotADirectory}" by auto
next
  assume "lookupParentDirectory fs p3 = Inl e3"
  from lookupParentDirectory_error [OF this]
  show "e3 \<in> {FileNotFound, FileExists, FileIsADirectory, FileNotADirectory}" by auto
next
  assume "rename fs p4 p5 overwrite = Inl e4"
  from rename_error [OF this]
  show "e4 \<in> {FileNotFound, FileExists, FileIsADirectory, FileNotADirectory}" by auto
next
  assume "writeFile fs now p6 content create overwrite' = Inl e5"
  from writeFile_error [OF this]
  show "e5 \<in> {FileNotFound, FileExists, FileIsADirectory, FileNotADirectory}" by auto
next
  assume "deleteFile fs now p7 = Inl e6"
  from deleteFile_error [OF this]
  show "e6 \<in> {FileNotFound, FileExists, FileIsADirectory, FileNotADirectory}" by auto
next
  assume "createDirectory fs now p8 = Inl e7"
  from createDirectory_errors [OF this]
  show "e7 \<in> {FileNotFound, FileExists, FileIsADirectory, FileNotADirectory}" by auto
next
  assume "c \<in> {FileNotFound, FileExists, FileIsADirectory, NoPermissions}"
  then show "errorResponseFromError (FsError c) commandId = Inr (errorResponse (code c) commandId)"
    by (rule errorResponseFromError_closed)
next
  show "messageType (errorResponse (code c) commandId) = Response"
    "messageBinary (errorResponse (code c) commandId) = None"
    "\<exists>obj. messageJson (errorResponse (code c) commandId) = JObj obj
              \<and> fmlookup obj ''success'' = Some (JBool False)
              \<and> fmlookup obj ''error'' = Some (JStr (code c))
              \<and> fmlookup obj ''commandId'' = Some (JStr commandId)"
    using errorResponse_fields [of "code c" commandId] by simp_all
next
  assume "\<forall>c. error = FsError c \<longrightarrow> c \<notin> {FileNotFound, FileExists, FileIsADirectory, NoPermissions}"
  then show "errorResponseFromError error commandId = Inl error"
    by (rule errorResponseFromError_other)
next
  show "errorResponseFromError (FsError FileNotADirectory) commandId = Inl (FsError FileNotADirectory)"
    by (simp add: errorResponseFromError_def)
qed

lemma lookupFile_missing:
  "lookupFile (createInMemoryFileSystem 0) ''/missing.txt'' = Inl FileNotFound"
  by (simp add: lookupFile_def lookup_impl_def createInMemoryFileSystem_def new_InMemoryDirectory_def)

theorem error_taxonomy_witness:
  "lookupFile (createInMemoryFileSystem 0) ''/missing.txt'' = Inl FileNotFound
   \<and> FileNotFound \<in> {FileNotFound, FileExists, FileIsADirectory, FileNotADirectory}
   \<and> errorResponseFromError (FsError FileNotFound) sample_commandId
        = Inr (errorResponse ''FileNotFound'' sample_commandId)
   \<and> errorResponseFromError ZodError sample_commandId = Inl ZodError"
proof -
  note t = error_taxonomy [where fs = "createInMemoryFileSystem 0" and ?p1.0 = "''/missing.txt''"
      and ?e1.0 = FileNotFound and c = FileNotFound and commandId = sample_commandId
      and error = ZodError]
  from t lookupFile_missing have "FileNotFound \<in> {FileNotFound, FileExists, FileIsADirectory, FileNotADirectory}"
    by blast
  moreover from t have "errorResponseFromError (FsError FileNotFound) sample_commandId
        = Inr (errorResponse (code FileNotFound) sample_commandId)"
    by blast
  moreover from t have "errorResponseFromError ZodError sample_commandId = Inl ZodError"
    by blast
  ultimately show ?thesis
    using lookupFile_missing by (simp add: code_def)
qed

text \<open>
  Claim C5 as stated fails: creating a directory below a file fails with
  \<open>FileNotADirectory\<close>, which is outside the set of the claim and which
  \<open>errorResponseFromError\<close> does not convert.
\<close>

theorem error_taxonomy_counterexample:
  "(case writeFile (createInMemoryFileSystem 0) 1 ''/a.txt'' [104, 105] True False of
      Inl e \<Rightarrow> False
    | Inr (created, fs1) \<Rightarrow> createDirectory fs1 2 ''/a.txt/sub'' = Inl FileNotADirectory)
   \<and> FileNotADirectory \<notin> {FileNotFound, FileExists, FileIsADirectory, NoPermissions}
   \<and> errorResponseFromError (FsError FileNotADirectory) sample_commandId = Inl (FsError FileNotADirectory)"
proof -
  define fs0 where "fs0 = createInMemoryFileSystem 0"
  define f1 where "f1 = (new_InMemoryFile 1 ''a.txt'')\<lparr>mtime := 1, size' := 2, data := [104, 105]\<rparr>"
  define d1 where "d1 = (new_InMemoryDirectory 0 [])\<lparr>entries := [(''a.txt'', 1)]\<rparr>"
  define fs1 where "fs1 = fs0\<lparr>heap := (heap fs0)(1 := File f1, root := Directory d1), next_ref := 2\<rparr>"
  have ba: "basename ''/a.txt'' = ''a.txt''"
    by (simp add: basename_def)
  have r0: "heap fs0 root = Directory (new_InMemoryDirectory 0 [])" and n0: "next_ref fs0 = 1"
    by (simp_all add: fs0_def createInMemoryFileSystem_def)
  have p0: "lookupParentDirectory fs0 ''/a.txt'' = Inr root"
    unfolding fs0_def by (rule empty_parent)
  have e0: "map_of (entries_of (heap fs0 root)) (basename ''/a.txt'') = None"
    by (simp add: r0 entries_of_def new_InMemoryDirectory_def)
  have ne0: "root \<noteq> next_ref fs0"
    by (simp add: n0 root_def)
  have w1: "writeFile fs0 1 ''/a.txt'' [104, 105] True False = Inr (True, fs1)"
    unfolding writeFile_new [OF p0 e0 r0 ne0]
    by (simp add: ba n0 new_InMemoryDirectory_def fs1_def f1_def d1_def numeral_2_eq_2)
  have h10: "heap fs1 root = Directory d1" and h11: "heap fs1 1 = File f1"
    by (simp_all add: fs1_def root_def)
  have l: "lookup_parts (heap fs1) root (split CHR ''/'' (dirname ''/a.txt/sub'')) = Some 1"
    by (simp add: dirname_def h10 d1_def)
  have c: "createDirectory fs1 2 ''/a.txt/sub'' = Inl FileNotADirectory"
    using h11 by (simp add: createDirectory_def lookupDirectory_def lookup_impl_eval [OF l])
  show ?thesis
    unfolding fs0_def [symmetric] w1 sum.case prod.case
    using c by (simp add: errorResponseFromError_def)
qed

section \<open>The client's handling of responses\<close>

lemma passthrough_output_twice: "passthrough_output (passthrough_output j) = passthrough_output j"
  by (cases j) (simp_all add: passthrough_output_def fmdrop_fixed)

lemma response_shape_output:
  "z_object response_json_shape Passthrough j
     \<Longrightarrow> z_object response_json_shape Passthrough (passthrough_output j)"
  by (cases j) (simp_all add: z_object_def response_json_shape_def passthrough_output_def fmlookup_drop)

lemma responseMessageSchema_of_decoded:
  assumes "messageFromBytes parse bytes = Inr msg" and "messageType msg = Response"
  shows "responseMessageSchema msg = Some msg"
proof -
  from assms(1) obtain p where p: "messageSchema p = Some msg"
    by (rule messageFromBytes_Inr)
  with assms(2) have "messageType p = Response"
    using messageSchema_type [of p msg] by simp
  with p have r: "responseMessageSchema p = Some msg"
    by (simp add: messageSchema_def Response_def Command_def)
  then have shape: "z_object response_json_shape Passthrough (messageJson p)"
    and msg: "msg = p\<lparr>messageJson := passthrough_output (messageJson p)\<rparr>"
    by (auto simp: responseMessageSchema_def split: if_splits)
  show ?thesis
    using assms(2) response_shape_output [OF shape]
    by (simp add: responseMessageSchema_def msg passthrough_output_twice)
qed

lemma on_message_response:
  assumes d: "messageFromBytes parse bytes = Inr msg" and t: "messageType msg = Response"
  shows "on_message parse c bytes =
     (case map_of (pendingCommands c) (commandId_of msg) of
        None \<Rightarrow> Inl (Error (''No pending command for '' @ commandId_of msg))
      | Some pendingCommand \<Rightarrow>
          Inr (c\<lparr>pendingCommands := AList.delete (commandId_of msg) (pendingCommands c),
                 resolved := resolved c @ [(pendingCommand, msg)]\<rparr>))"
  by (simp add: on_message_def d t responseMessageSchema_of_decoded [OF d t] Let_def)

lemma on_messages_responses:
  assumes "list_all2 (\<lambda>bytes msg. messageFromBytes parse bytes = Inr msg \<and> messageType msg = Response)
             frames msgs"
    and "distinct (map commandId_of msgs)"
    and "\<forall>msg \<in> set msgs. map_of (pendingCommands c) (commandId_of msg) = Some (deferred msg)"
  shows "on_messages parse c frames =
     Inr (c\<lparr>pendingCommands := fold (\<lambda>msg. AList.delete (commandId_of msg)) msgs (pendingCommands c),
            resolved := resolved c @ map (\<lambda>msg. (deferred msg, msg)) msgs\<rparr>)"
  using assms
proof (induction frames msgs arbitrary: c rule: list_all2_induct)
  case Nil
  then show ?case by simp
next
  case (Cons bytes frames msg msgs)
  let ?c' = "c\<lparr>pendingCommands := AList.delete (commandId_of msg) (pendingCommands c),
                 resolved := resolved c @ [(deferred msg, msg)]\<rparr>"
  from Cons.hyps(1) have d: "messageFromBytes parse bytes = Inr msg" and t: "messageType msg = Response"
    by simp_all
  from Cons.prems(2) have p: "map_of (pendingCommands c) (commandId_of msg) = Some (deferred msg)"
    by simp
  have step: "on_message parse c bytes = Inr ?c'"
    by (simp add: on_message_response [OF d t] p)
  from Cons.prems(1) have dist: "distinct (map commandId_of msgs)"
    and fresh: "\<forall>m \<in> set msgs. commandId_of m \<noteq> commandId_of msg"
    by (auto simp: image_iff)
  have rest: "\<forall>m \<in> set msgs. map_of (pendingCommands ?c') (commandId_of m) = Some (deferred m)"
    using Cons.prems(2) fresh by (simp add: delete_conv')
  have "on_messages parse ?c' frames =
     Inr (?c'\<lparr>pendingCommands := fold (\<lambda>msg. AList.delete (commandId_of msg)) msgs (pendingCommands ?c'),
            resolved := resolved ?c' @ map (\<lambda>msg. (deferred msg, msg)) msgs\<rparr>)"
    using dist rest by (rule Cons.IH)
  then show ?case
    by (simp add: step)
qed

text \<open>
  Claim C8. When a frame decodes to a response, the listener throws an error if the
  response's command identifier has no entry in \<open>pendingCommands\<close>; the state is not
  changed and no deferred result is resolved. If the identifier has an entry, exactly
  that entry is removed and its deferred result is resolved with the response. Hence,
  for responses with distinct identifiers that are all pending, arriving in any order,
  each deferred result is resolved with the response that carries its identifier.
\<close>

theorem unmatched_response_fatal:
  assumes "messageFromBytes parse bytes = Inr msg"
    and "messageType msg = Response"
  shows "(map_of (pendingCommands c) (commandId_of msg) = None \<longrightarrow>
            on_message parse c bytes = Inl (Error (''No pending command for '' @ commandId_of msg)))
       \<and> (\<forall>pendingCommand. map_of (pendingCommands c) (commandId_of msg) = Some pendingCommand \<longrightarrow>
            on_message parse c bytes =
              Inr (c\<lparr>pendingCommands := AList.delete (commandId_of msg) (pendingCommands c),
                     resolved := resolved c @ [(pendingCommand, msg)]\<rparr>)
            \<and> (\<forall>k. map_of (AList.delete (commandId_of msg) (pendingCommands c)) k
                       = (if k = commandId_of msg then None else map_of (pendingCommands c) k)))
       \<and> (list_all2 (\<lambda>bytes msg. messageFromBytes parse bytes = Inr msg \<and> messageType msg = Response)
             frames msgs
           \<and> distinct (map commandId_of msgs)
           \<and> (\<forall>msg \<in> set msgs. map_of (pendingCommands c) (commandId_of msg) = Some (deferred msg))
           \<longrightarrow> on_messages parse c frames =
                 Inr (c\<lparr>pendingCommands := fold (\<lambda>msg. AList.delete (commandId_of msg)) msgs (pendingCommands c),
                        resolved := resolved c @ map (\<lambda>msg. (deferred msg, msg)) msgs\<rparr>))"
proof (intro conjI impI allI)
  assume "map_of (pendingCommands c) (commandId_of msg) = None"
  then show "on_message parse c bytes = Inl (Error (''No pending command for '' @ commandId_of msg))"
    by (simp add: on_message_response [OF assms])
next
  fix pendingCommand
  assume "map_of (pendingCommands c) (commandId_of msg) = Some pendingCommand"
  then show "on_message parse c bytes =
              Inr (c\<lparr>pendingCommands := AList.delete (commandId_of msg) (pendingCommands c),
                     resolved := resolved c @ [(pendingCommand, msg)]\<rparr>)"
    by (simp add: on_message_response [OF assms])
next
  fix pendingCommand k
  show "map_of (AList.delete (commandId_of msg) (pendingCommands c)) k
                       = (if k = commandId_of msg then None else map_of (pendingCommands c) k)"
    by (simp add: delete_conv')
next
  assume "list_all2 (\<lambda>bytes msg. messageFromBytes parse bytes = Inr msg \<and> messageType msg = Response)
             frames msgs
           \<and> distinct (map commandId_of msgs)
           \<and> (\<forall>msg \<in> set msgs. map_of (pendingCommands c) (commandId_of msg) = Some (deferred msg))"
  then show "on_messages parse c frames =
                 Inr (c\<lparr>pendingCommands := fold (\<lambda>msg. AList.delete (commandId_of msg)) msgs (pendingCommands c),
                        resolved := resolved c @ map (\<lambda>msg. (deferred msg, msg)) msgs\<rparr>)"
    using on_messages_responses [of parse frames msgs c deferred] by blast
qed

lemma other_uuid_ok: "is_uuid other_commandId"
  by (simp add: is_uuid_def other_commandId_def is_hex_def)

lemma replies_differ: "other_reply \<noteq> sample_reply"
proof
  assume "other_reply = sample_reply"
  then have "fmlookup (fmap_of_list [(''success'', JBool True), (''commandId'', JStr other_commandId)]) ''commandId''
      = fmlookup (fmap_of_list [(''success'', JBool True), (''commandId'', JStr sample_commandId)]) ''commandId''"
    by (simp add: other_reply_def sample_reply_def)
  then show False
    by (simp add: other_commandId_def sample_commandId_def)
qed

lemma other_reply_rt: "sample_parse (sample_stringify other_reply) = Some other_reply"
  by (simp add: sample_parse_def sample_stringify_def replies_differ ascii_def
      sample_reply_text_def other_reply_text_def)

lemma sample_response_valid: "messageSchema sample_response = Some sample_response"
  by (simp add: sample_response_def messageSchema_def responseMessageSchema_def Response_def Command_def
      z_object_def response_json_shape_def sample_reply_def z_uuid_def z_boolean_def uuid_ok
      passthrough_output_fixed)

lemma other_response_valid: "messageSchema other_response = Some other_response"
  by (simp add: other_response_def messageSchema_def responseMessageSchema_def Response_def Command_def
      z_object_def response_json_shape_def other_reply_def z_uuid_def z_boolean_def other_uuid_ok
      passthrough_output_fixed)

lemma decode_sample_response:
  "messageFromBytes sample_parse (arrayBufferFromMessage sample_stringify sample_response) = Inr sample_response"
proof -
  have c: "sample_parse (sample_stringify (messageJson sample_response)) = Some (messageJson sample_response)"
    by (simp add: sample_response_def sample_reply_rt)
  have s: "length (sample_stringify (messageJson sample_response))
      + (case messageBinary sample_response of None \<Rightarrow> 0 | Some binary \<Rightarrow> length binary) < 2 ^ 32"
    by (simp add: sample_response_def sample_stringify_def ascii_def sample_reply_text_def)
  from decode_encode [where m = sample_response and parse = sample_parse and stringify = sample_stringify, OF sample_response_valid c s] show ?thesis
    by (simp add: sample_response_def)
qed

lemma decode_other_response:
  "messageFromBytes sample_parse (arrayBufferFromMessage sample_stringify other_response) = Inr other_response"
proof -
  have c: "sample_parse (sample_stringify (messageJson other_response)) = Some (messageJson other_response)"
    by (simp add: other_response_def other_reply_rt)
  have s: "length (sample_stringify (messageJson other_response))
      + (case messageBinary other_response of None \<Rightarrow> 0 | Some binary \<Rightarrow> length binary) < 2 ^ 32"
    by (simp add: other_response_def sample_stringify_def replies_differ ascii_def other_reply_text_def)
  from decode_encode [where m = other_response and parse = sample_parse and stringify = sample_stringify, OF other_response_valid c s] show ?thesis
    by (simp add: other_response_def)
qed

lemma commandId_of_sample: "commandId_of sample_response = sample_commandId"
  by (simp add: commandId_of_def sample_response_def sample_reply_def)

lemma commandId_of_other: "commandId_of other_response = other_commandId"
  by (simp add: commandId_of_def other_response_def other_reply_def)

lemma commandIds_differ: "other_commandId \<noteq> sample_commandId"
  by (simp add: other_commandId_def sample_commandId_def)

theorem unmatched_response_fatal_witness:
  "on_message sample_parse new_client (arrayBufferFromMessage sample_stringify sample_response)
     = Inl (Error (''No pending command for '' @ sample_commandId))
   \<and> on_messages sample_parse
        (register_pending (register_pending new_client sample_commandId) other_commandId)
        [arrayBufferFromMessage sample_stringify other_response,
         arrayBufferFromMessage sample_stringify sample_response]
     = Inr \<lparr>pendingCommands = [], resolved = [(1, other_response), (0, sample_response)],
            next_deferred = 2\<rparr>"
proof -
  define c2 where "c2 = register_pending (register_pending new_client sample_commandId) other_commandId"
  have p2: "pendingCommands c2 = [(sample_commandId, 0), (other_commandId, 1)]"
    and r2: "resolved c2 = []" and n2: "next_deferred c2 = 2"
    using commandIds_differ by (simp_all add: c2_def register_pending_def new_client_def)
  have t1: "messageType sample_response = Response" and t2: "messageType other_response = Response"
    by (simp_all add: sample_response_def other_response_def)
  have "map_of (pendingCommands new_client) (commandId_of sample_response) = None"
    by (simp add: new_client_def)
  with unmatched_response_fatal [OF decode_sample_response t1, of new_client]
  have first: "on_message sample_parse new_client (arrayBufferFromMessage sample_stringify sample_response)
     = Inl (Error (''No pending command for '' @ sample_commandId))"
    by (simp add: commandId_of_sample)
  let ?deferred = "\<lambda>msg. if msg = other_response then 1 else (0::nat)"
  have ne: "other_response \<noteq> sample_response"
    using replies_differ by (simp add: other_response_def sample_response_def)
  have l: "list_all2 (\<lambda>bytes msg. messageFromBytes sample_parse bytes = Inr msg \<and> messageType msg = Response)
      [arrayBufferFromMessage sample_stringify other_response,
       arrayBufferFromMessage sample_stringify sample_response]
      [other_response, sample_response]"
    by (simp add: decode_sample_response decode_other_response t1 t2)
  have d: "distinct (map commandId_of [other_response, sample_response])"
    using commandIds_differ by (simp add: commandId_of_sample commandId_of_other)
  have m: "\<forall>msg \<in> set [other_response, sample_response].
      map_of (pendingCommands c2) (commandId_of msg) = Some (?deferred msg)"
    using commandIds_differ ne by (simp add: p2 commandId_of_sample commandId_of_other)
  from unmatched_response_fatal [OF decode_sample_response t1, of c2
      "[arrayBufferFromMessage sample_stringify other_response,
        arrayBufferFromMessage sample_stringify sample_response]"
      "[other_response, sample_response]" ?deferred] l d m
  have "on_messages sample_parse c2
        [arrayBufferFromMessage sample_stringify other_response,
         arrayBufferFromMessage sample_stringify sample_response]
     = Inr (c2\<lparr>pendingCommands := fold (\<lambda>msg. AList.delete (commandId_of msg))
                   [other_response, sample_response] (pendingCommands c2),
              resolved := resolved c2 @ map (\<lambda>msg. (?deferred msg, msg)) [other_response, sample_response]\<rparr>)"
    by blast
  also have "c2\<lparr>pendingCommands := fold (\<lambda>msg. AList.delete (commandId_of msg))
                   [other_response, sample_response] (pendingCommands c2),
              resolved := resolved c2 @ map (\<lambda>msg. (?deferred msg, msg)) [other_response, sample_response]\<rparr>
      = \<lparr>pendingCommands = [], resolved = [(1, other_response), (0, sample_response)],
            next_deferred = 2\<rparr>"
    using commandIds_differ ne n2 p2 r2
    by (cases c2) (simp add: commandId_of_sample commandId_of_other)
  finally show ?thesis
    using first by (simp add: c2_def)
qed

section \<open>Reading an empty file, end to end\<close>

lemma readFile_success_valid:
  assumes "is_uuid commandId"
  shows "messageSchema \<lparr>messageType = Response,
           messageJson = JObj (fmap_of_list [(''success'', JBool True), (''commandId'', JStr commandId)]),
           messageBinary = b\<rparr>
       = Some \<lparr>messageType = Response,
           messageJson = JObj (fmap_of_list [(''success'', JBool True), (''commandId'', JStr commandId)]),
           messageBinary = b\<rparr>"
  using assms
  by (simp add: messageSchema_def responseMessageSchema_def Response_def Command_def
      z_object_def response_json_shape_def z_uuid_def z_boolean_def passthrough_output_fixed)

lemma readFileResponseSchema_success:
  assumes "is_uuid commandId"
  shows "readFileResponseSchema \<lparr>messageType = Response,
           messageJson = JObj (fmap_of_list [(''success'', JBool True), (''commandId'', JStr commandId)]),
           messageBinary = b\<rparr>
       = Some \<lparr>messageType = Response,
           messageJson = JObj (fmap_of_list [(''success'', JBool True), (''commandId'', JStr commandId)]),
           messageBinary = Some (case b of None \<Rightarrow> [] | Some binary \<Rightarrow> binary)\<rparr>"
  using assms
  by (simp add: readFileResponseSchema_def readFileSuccessResponseSchema_def Response_def
      z_object_def extend_shape_def response_json_shape_def z_uuid_def z_literal_bool_def)

lemma readFile_default:
  "readFileSuccessResponseSchema m = Some m'
     \<Longrightarrow> messageBinary m' = Some (case messageBinary m of None \<Rightarrow> [] | Some binary \<Rightarrow> binary)"
  by (auto simp: readFileSuccessResponseSchema_def split: if_splits)

lemma empty_file_chain:
  assumes l: "lookupFile fs path = Inr file"
    and e: "data_of (heap fs file) = []"
    and u: "is_uuid commandId"
    and c: "parse (stringify (JObj (fmap_of_list [(''success'', JBool True), (''commandId'', JStr commandId)])))
              = Some (JObj (fmap_of_list [(''success'', JBool True), (''commandId'', JStr commandId)]))"
    and s: "length (stringify (JObj (fmap_of_list [(''success'', JBool True), (''commandId'', JStr commandId)])))
              < 2 ^ 32"
  shows "\<exists>reply decoded validated.
           readFile fs path commandId = Inr reply \<and> messageBinary reply = Some []
         \<and> length (arrayBufferFromMessage stringify reply)
             = HEADER_LENGTH + length (stringify (messageJson reply))
         \<and> messageFromBytes parse (arrayBufferFromMessage stringify reply) = Inr decoded
         \<and> messageBinary decoded = None
         \<and> readFileResponseSchema decoded = Some validated
         \<and> messageBinary validated = Some []"
proof -
  define j where "j = JObj (fmap_of_list [(''success'', JBool True), (''commandId'', JStr commandId)])"
  define reply where "reply = \<lparr>messageType = Response, messageJson = j, messageBinary = Some ([] :: byte list)\<rparr>"
  define decoded where "decoded = \<lparr>messageType = Response, messageJson = j, messageBinary = (None :: byte list option)\<rparr>"
  define validated where "validated = \<lparr>messageType = Response, messageJson = j, messageBinary = Some ([] :: byte list)\<rparr>"
  have r: "readFile fs path commandId = Inr reply"
    by (simp add: readFile_def l e reply_def j_def)
  have v: "messageSchema reply = Some reply"
    unfolding reply_def j_def using u by (rule readFile_success_valid)
  have c': "parse (stringify (messageJson reply)) = Some (messageJson reply)"
    using c by (simp add: reply_def j_def)
  have s': "length (stringify (messageJson reply))
      + (case messageBinary reply of None \<Rightarrow> 0 | Some binary \<Rightarrow> length binary) < 2 ^ 32"
    using s by (simp add: reply_def j_def)
  from decode_encode [where m = reply and parse = parse and stringify = stringify, OF v c' s']
  have d: "messageFromBytes parse (arrayBufferFromMessage stringify reply) = Inr decoded"
    by (simp add: reply_def decoded_def)
  have len: "length (arrayBufferFromMessage stringify reply)
             = HEADER_LENGTH + length (stringify (messageJson reply))"
    by (simp add: encode_layout u32_bytes_def HEADER_LENGTH_def reply_def)
  have val: "readFileResponseSchema decoded = Some validated"
    unfolding decoded_def validated_def j_def
    using readFileResponseSchema_success [OF u, of None] by simp
  have b1: "messageBinary reply = Some []" and b2: "messageBinary decoded = None"
    and b3: "messageBinary validated = Some []"
    by (simp_all add: reply_def decoded_def validated_def)
  from r b1 len d b2 val b3 show ?thesis
    by (intro exI conjI)
qed

text \<open>
  Claim C10. For an existing file with empty content, and a command identifier that is
  a UUID: the handler of \<open>readFile\<close> answers with a present payload of length zero; the
  frame encoded from the answer has no binary segment; the message decoded from the
  frame has no binary payload; and the validation of the \<open>readFile\<close> response gives it
  a present payload of length zero. The success schema of \<open>readFile\<close> always yields a
  present payload, the empty one where the message has none. The platform's JSON text
  functions are assumed to return the reply's JSON value unchanged.
\<close>

theorem empty_file_read:
  assumes "lookupFile fs path = Inr file"
    and "data_of (heap fs file) = []"
    and "is_uuid commandId"
    and "parse (stringify (JObj (fmap_of_list [(''success'', JBool True), (''commandId'', JStr commandId)])))
           = Some (JObj (fmap_of_list [(''success'', JBool True), (''commandId'', JStr commandId)]))"
    and "length (stringify (JObj (fmap_of_list [(''success'', JBool True), (''commandId'', JStr commandId)])))
           < 2 ^ 32"
  shows "(\<exists>reply decoded validated.
           readFile fs path commandId = Inr reply \<and> messageBinary reply = Some []
         \<and> length (arrayBufferFromMessage stringify reply)
             = HEADER_LENGTH + length (stringify (messageJson reply))
         \<and> messageFromBytes parse (arrayBufferFromMessage stringify reply) = Inr decoded
         \<and> messageBinary decoded = None
         \<and> readFileResponseSchema decoded = Some validated
         \<and> messageBinary validated = Some [])
       \<and> (readFileSuccessResponseSchema m = Some m' \<longrightarrow>
            messageBinary m' = Some (case messageBinary m of None \<Rightarrow> [] | Some binary \<Rightarrow> binary))"
  using empty_file_chain [where parse = parse and stringify = stringify, OF assms]
    readFile_default [of m m'] by blast

theorem empty_file_read_witness:
  "(case writeFile (createInMemoryFileSystem 0) 1 ''/a.txt'' [] True False of
      Inl e \<Rightarrow> False
    | Inr (created, fs1) \<Rightarrow>
       (case readFile fs1 ''/a.txt'' sample_commandId of
          Inl e \<Rightarrow> False
        | Inr reply \<Rightarrow>
            messageBinary reply = Some []
          \<and> (case messageFromBytes sample_parse (arrayBufferFromMessage sample_stringify reply) of
                Inl e \<Rightarrow> False
              | Inr decoded \<Rightarrow>
                  messageBinary decoded = None
                \<and> map_option messageBinary (readFileResponseSchema decoded) = Some (Some []))))"
proof -
  define fs0 where "fs0 = createInMemoryFileSystem 0"
  define f1 where "f1 = (new_InMemoryFile 1 ''a.txt'')\<lparr>mtime := 1, size' := 0, data := []\<rparr>"
  define d1 where "d1 = (new_InMemoryDirectory 0 [])\<lparr>entries := [(''a.txt'', 1)]\<rparr>"
  define fs1 where "fs1 = fs0\<lparr>heap := (heap fs0)(1 := File f1, root := Directory d1), next_ref := 2\<rparr>"
  have ba: "basename ''/a.txt'' = ''a.txt''"
    by (simp add: basename_def)
  have r0: "heap fs0 root = Directory (new_InMemoryDirectory 0 [])" and n0: "next_ref fs0 = 1"
    by (simp_all add: fs0_def createInMemoryFileSystem_def)
  have p0: "lookupParentDirectory fs0 ''/a.txt'' = Inr root"
    unfolding fs0_def by (rule empty_parent)
  have e0: "map_of (entries_of (heap fs0 root)) (basename ''/a.txt'') = None"
    by (simp add: r0 entries_of_def new_InMemoryDirectory_def)
  have ne0: "root \<noteq> next_ref fs0"
    by (simp add: n0 root_def)
  have w1: "writeFile fs0 1 ''/a.txt'' [] True False = Inr (True, fs1)"
    unfolding writeFile_new [OF p0 e0 r0 ne0]
    by (simp add: ba n0 new_InMemoryDirectory_def fs1_def f1_def d1_def numeral_2_eq_2)
  have h10: "heap fs1 root = Directory d1" and h11: "heap fs1 1 = File f1"
    by (simp_all add: fs1_def root_def)
  have l_a: "lookup_parts (heap fs1) root (split CHR ''/'' ''/a.txt'') = Some 1"
    by (simp add: h10 d1_def)
  have l: "lookupFile fs1 ''/a.txt'' = Inr 1"
    using h11 by (simp add: lookupFile_def lookup_impl_eval [OF l_a])
  have e: "data_of (heap fs1 1) = []"
    using h11 by (simp add: data_of_def f1_def)
  have c: "sample_parse (sample_stringify (JObj (fmap_of_list
        [(''success'', JBool True), (''commandId'', JStr sample_commandId)])))
      = Some (JObj (fmap_of_list [(''success'', JBool True), (''commandId'', JStr sample_commandId)]))"
    using sample_reply_rt by (simp add: sample_reply_def)
  have s: "length (sample_stringify (JObj (fmap_of_list
        [(''success'', JBool True), (''commandId'', JStr sample_commandId)]))) < 2 ^ 32"
    by (simp add: sample_stringify_def sample_reply_def ascii_def sample_reply_text_def)
  from empty_file_read [where parse = sample_parse and stringify = sample_stringify, OF l e uuid_ok c s]
  obtain reply decoded validated where
    "readFile fs1 ''/a.txt'' sample_commandId = Inr reply" "messageBinary reply = Some []"
    "messageFromBytes sample_parse (arrayBufferFromMessage sample_stringify reply) = Inr decoded"
    "messageBinary decoded = None"
    "readFileResponseSchema decoded = Some validated"
    "messageBinary validated = Some []"
    by blast
  then show ?thesis
    unfolding fs0_def [symmetric] w1 by simp
qed

end
